theory Spec2Isabelle
  imports Main
begin

section \<open>JavaScript values, errors and the console\<close>

text \<open>
  The main process of the application (\<^verbatim>\<open>src/electron/main.cjs\<close>) passes untyped
  JavaScript values across its IPC boundary. The values the handlers inspect are
  modelled by \<open>jsval\<close>; an object is its list of own properties.
\<close>

datatype jsval =
    JUndefined
  | JNull
  | JBool bool
  | JNum int
  | JStr string
  | JObj "(string \<times> jsval) list"

text \<open>What \<^verbatim>\<open>if (v)\<close> and \<^verbatim>\<open>v && ...\<close> test.\<close>

fun truthy :: "jsval \<Rightarrow> bool" where
  "truthy JUndefined = False"
| "truthy JNull = False"
| "truthy (JBool b) = b"
| "truthy (JNum n) = (n \<noteq> 0)"
| "truthy (JStr s) = (s \<noteq> [])"
| "truthy (JObj kvs) = True"

text \<open>A thrown \<^verbatim>\<open>Error\<close>; the handlers only ever read its \<^verbatim>\<open>message\<close>.\<close>

datatype error = Error (message: string)

text \<open>
  Property read \<^verbatim>\<open>v.k\<close>: a \<^verbatim>\<open>TypeError\<close> on \<^verbatim>\<open>undefined\<close> and \<^verbatim>\<open>null\<close>,
  \<^verbatim>\<open>undefined\<close> for a property that is not there.
\<close>

fun get_prop :: "jsval \<Rightarrow> string \<Rightarrow> error + jsval" where
  "get_prop JUndefined k = Inl (Error (''Cannot read properties of undefined (reading '' @ k @ '')''))"
| "get_prop JNull k = Inl (Error (''Cannot read properties of null (reading '' @ k @ '')''))"
| "get_prop (JObj kvs) k = Inr (case map_of kvs k of None \<Rightarrow> JUndefined | Some v \<Rightarrow> v)"
| "get_prop v k = Inr JUndefined"

text \<open>A default parameter \<^verbatim>\<open>(x = d)\<close> replaces \<^verbatim>\<open>undefined\<close> only.\<close>

fun default_param :: "jsval \<Rightarrow> jsval \<Rightarrow> jsval" where
  "default_param JUndefined d = d"
| "default_param v d = v"

datatype log_entry =
    Log string                 \<comment> \<open>\<^verbatim>\<open>console.log(text)\<close>\<close>
  | LogError string error      \<comment> \<open>\<^verbatim>\<open>console.error(text, error)\<close>\<close>

section \<open>The recurring timer (node-cron) and the process state\<close>

text \<open>
  A task made by \<^verbatim>\<open>cron.schedule(pattern, callback)\<close>. The callback of
  \<open>scheduleAutoBackup\<close> is one fixed closure over \<^verbatim>\<open>driveCredentials\<close>, so a task
  records the captured value.
\<close>

record cron_task =
  pattern :: string
  running :: bool
  credentials :: jsval

datatype cron_call = Schedule nat string | Stop nat | Start nat

text \<open>
  The process state: the global \<^verbatim>\<open>backupSchedule\<close> (a handle into the tasks node-cron
  holds), the directories and files on disk, the console, the uploads sent to Google
  Drive and whether the database was closed.
\<close>

record world =
  backupSchedule :: "nat option"
  tasks :: "cron_task list"
  cron_calls :: "cron_call list"
  dirs :: "string set"
  files :: "jsval set"
  console :: "log_entry list"
  uploads :: "(string \<times> string) list"
  db_closed :: bool

definition init_world :: world where
  "init_world = \<lparr>backupSchedule = None, tasks = [], cron_calls = [], dirs = {}, files = {},
     console = [], uploads = [], db_closed = False\<rparr>"

definition console_log :: "string \<Rightarrow> world \<Rightarrow> world" where
  "console_log txt s = s\<lparr>console := console s @ [Log txt]\<rparr>"

definition console_error :: "string \<Rightarrow> error \<Rightarrow> world \<Rightarrow> world" where
  "console_error txt e s = s\<lparr>console := console s @ [LogError txt e]\<rparr>"

text \<open>
  \<^verbatim>\<open>cron.schedule\<close> registers a task, which is scheduled from its creation (the
  library's default), and returns its handle; \<^verbatim>\<open>stop\<close> and \<^verbatim>\<open>start\<close> switch one
  task off and on and leave every other task alone.
\<close>

definition cron_schedule :: "string \<Rightarrow> jsval \<Rightarrow> world \<Rightarrow> nat \<times> world" where
  "cron_schedule p c s =
     (length (tasks s),
      s\<lparr>tasks := tasks s @ [\<lparr>pattern = p, running = True, credentials = c\<rparr>],
        cron_calls := cron_calls s @ [Schedule (length (tasks s)) p]\<rparr>)"

definition set_running :: "nat \<Rightarrow> bool \<Rightarrow> cron_task list \<Rightarrow> cron_task list" where
  "set_running t b ts = (if t < length ts then ts[t := (ts ! t)\<lparr>running := b\<rparr>] else ts)"

definition task_stop :: "nat \<Rightarrow> world \<Rightarrow> world" where
  "task_stop t s = s\<lparr>tasks := set_running t False (tasks s), cron_calls := cron_calls s @ [Stop t]\<rparr>"

definition task_start :: "nat \<Rightarrow> world \<Rightarrow> world" where
  "task_start t s = s\<lparr>tasks := set_running t True (tasks s), cron_calls := cron_calls s @ [Start t]\<rparr>"

text \<open>The handles of the triggers that are active.\<close>

definition active_triggers :: "world \<Rightarrow> nat list" where
  "active_triggers s = filter (\<lambda>i. running (tasks s ! i)) [0 ..< length (tasks s)]"

section \<open>scheduleAutoBackup\<close>

text \<open>The \<^verbatim>\<open>switch (schedule)\<close> of \<open>scheduleAutoBackup\<close>; \<open>None\<close> is its \<^verbatim>\<open>default: return\<close>.\<close>

definition cronPattern :: "jsval \<Rightarrow> string option" where
  "cronPattern schedule =
     (if schedule = JStr ''daily'' then Some ''0 2 * * *''
      else if schedule = JStr ''weekly'' then Some ''0 2 * * 0''
      else if schedule = JStr ''monthly'' then Some ''0 2 1 * *''
      else None)"

text \<open>The text \<^verbatim>\<open>${schedule}\<close> of a string.\<close>

fun template_text :: "jsval \<Rightarrow> string" where
  "template_text (JStr f) = f"
| "template_text v = []"

text \<open>
  The first statement of \<open>scheduleAutoBackup\<close>:
  \<^verbatim>\<open>if (backupSchedule) { backupSchedule.stop(); backupSchedule = null; }\<close>
\<close>

definition stop_previous :: "world \<Rightarrow> world" where
  "stop_previous s =
     (case backupSchedule s of
        Some t \<Rightarrow> (task_stop t s)\<lparr>backupSchedule := None\<rparr>
      | None \<Rightarrow> s)"

definition scheduleAutoBackup :: "jsval \<Rightarrow> jsval \<Rightarrow> world \<Rightarrow> world" where
  "scheduleAutoBackup schedule creds s =
     (let driveCredentials = default_param creds JNull;
          s1 = stop_previous s
      in if truthy schedule \<and> schedule \<noteq> JStr ''manual'' then
           (case cronPattern schedule of
              None \<Rightarrow> s1
            | Some p \<Rightarrow>
                (let (t, s2) = cron_schedule p driveCredentials s1;
                     s3 = s2\<lparr>backupSchedule := Some t\<rparr>;
                     s4 = task_start t s3
                 in console_log (''Automatic backup scheduled: '' @ template_text schedule) s4))
         else s1)"

text \<open>
  The handler of \<^verbatim>\<open>'setup-auto-backup'\<close>. A handler's result is \<open>Inr\<close> the value its
  promise resolves to, or \<open>Inl\<close> the error it rejects with. \<open>scheduleAutoBackup\<close> has no
  \<^verbatim>\<open>throw\<close> and calls the timer on patterns it wrote itself, so the \<^verbatim>\<open>catch\<close> of the
  handler has nothing to catch.
\<close>

definition setup_auto_backup :: "jsval \<Rightarrow> jsval \<Rightarrow> world \<Rightarrow> (error + jsval) \<times> world" where
  "setup_auto_backup schedule creds s =
     (let driveCredentials = default_param creds JNull;
          s1 = scheduleAutoBackup schedule driveCredentials s
      in (Inr (JObj [(''success'', JBool True)]), s1))"

section \<open>The environment of one run\<close>

text \<open>
  What the world outside the process answers during one run of a handler or of the
  scheduled callback: the clock, Electron's paths, the file system, the storage
  backend, Google Drive, the file picker and the timer's matching of the current
  minute against a pattern.
\<close>

record date =
  year :: nat
  month :: nat
  day :: nat
  hours :: nat
  minutes :: nat
  seconds :: nat
  millis :: nat

record env =
  now :: date                                 \<comment> \<open>\<^verbatim>\<open>new Date()\<close>, in UTC fields\<close>
  userData :: string                          \<comment> \<open>\<^verbatim>\<open>app.getPath('userData')\<close>\<close>
  path_join :: "string \<Rightarrow> string \<Rightarrow> string"   \<comment> \<open>\<^verbatim>\<open>path.join\<close>\<close>
  path_basename :: "string \<Rightarrow> string"        \<comment> \<open>\<^verbatim>\<open>path.basename\<close>\<close>
  mkdir_error :: "error option"               \<comment> \<open>what \<^verbatim>\<open>fs.mkdirSync\<close> throws, if it does\<close>
  backup_error :: "error option"              \<comment> \<open>what the backend's backup rejects with\<close>
  restore_error :: "error option"
  repair_error :: "error option"
  drive_error :: "error option"               \<comment> \<open>what building the Drive client throws\<close>
  upload_outcome :: "error + jsval"           \<comment> \<open>\<^verbatim>\<open>drive.files.create\<close>: rejects, or \<^verbatim>\<open>response.data.id\<close>\<close>
  open_dialog :: "error + bool \<times> string list" \<comment> \<open>\<^verbatim>\<open>dialog.showOpenDialog\<close>: canceled, filePaths\<close>
  cron_match :: "string \<Rightarrow> bool"             \<comment> \<open>does the current minute match the pattern\<close>

section \<open>Timestamps and file names\<close>

definition digit :: "nat \<Rightarrow> char" where
  "digit n = ''0123456789'' ! (n mod 10)"

text \<open>The \<open>w\<close> lowest decimal digits of \<open>n\<close>, with leading zeros.\<close>

fun pad :: "nat \<Rightarrow> nat \<Rightarrow> string" where
  "pad 0 n = []"
| "pad (Suc w) n = pad w (n div 10) @ [digit n]"

text \<open>
  \<^verbatim>\<open>Date.prototype.toISOString\<close>: \<^verbatim>\<open>YYYY-MM-DDTHH:mm:ss.sssZ\<close>, the year with a sign
  and six digits beyond 9999.
\<close>

definition year_text :: "nat \<Rightarrow> string" where
  "year_text y = (if y \<le> 9999 then pad 4 y else CHR ''+'' # pad 6 y)"

definition toISOString :: "date \<Rightarrow> string" where
  "toISOString d =
     year_text (year d) @ ''-'' @ pad 2 (month d) @ ''-'' @ pad 2 (day d) @ ''T'' @
     pad 2 (hours d) @ '':'' @ pad 2 (minutes d) @ '':'' @ pad 2 (seconds d) @ ''.'' @
     pad 3 (millis d) @ ''Z''"

text \<open>\<^verbatim>\<open>.replace(/:/g, '-')\<close>\<close>

definition replace_colons :: "string \<Rightarrow> string" where
  "replace_colons = map (\<lambda>c. if c = CHR '':'' then CHR ''-'' else c)"

text \<open>
  \<^verbatim>\<open>.replace(/\..+/, '')\<close>: the first dot that is followed by at least one character
  of the same line is removed together with the rest of that line.
\<close>

definition line_terminator :: "char \<Rightarrow> bool" where
  "line_terminator c = (c = CHR 0x0A \<or> c = CHR 0x0D)"

fun strip_dot_rest :: "string \<Rightarrow> string" where
  "strip_dot_rest [] = []"
| "strip_dot_rest (c # cs) =
     (if c = CHR ''.'' \<and> cs \<noteq> [] \<and> \<not> line_terminator (hd cs)
      then dropWhile (\<lambda>x. \<not> line_terminator x) cs
      else c # strip_dot_rest cs)"

text \<open>\<^verbatim>\<open>new Date().toISOString().replace(/:/g, '-').replace(/\..+/, '')\<close>\<close>

definition timestamp :: "date \<Rightarrow> string" where
  "timestamp d = strip_dot_rest (replace_colons (toISOString d))"

text \<open>The file names of the handlers and of the scheduled callback.\<close>

definition backup_name :: "date \<Rightarrow> string" where
  "backup_name d = ''gym-backup-'' @ timestamp d @ ''.db''"

definition auto_backup_name :: "date \<Rightarrow> string" where
  "auto_backup_name d = ''gym-auto-backup-'' @ timestamp d @ ''.db''"

section \<open>Directories, the storage backend and Google Drive\<close>

definition ensureBackupDirectory :: "env \<Rightarrow> world \<Rightarrow> (error + string) \<times> world" where
  "ensureBackupDirectory env s =
     (let backupDir = path_join env (userData env) ''backups''
      in if backupDir \<notin> dirs s then
           (case mkdir_error env of
              Some e \<Rightarrow> (Inl e, s)
            | None \<Rightarrow> (Inr backupDir, s\<lparr>dirs := insert backupDir (dirs s)\<rparr>))
         else (Inr backupDir, s))"

text \<open>
  Modelled from the spec: \<^verbatim>\<open>DatabaseService.backup\<close> (\<^verbatim>\<open>./database.cjs\<close>) is not among
  the sources. The spec gives the storage backend \<^verbatim>\<open>backup(destinationPath) -> path\<close>,
  which may fail, and says that the path of a backup refers to a file that existed
  when the backup was made. The contents of the database are not modelled.
\<close>

definition DatabaseService_backup :: "env \<Rightarrow> jsval \<Rightarrow> world \<Rightarrow> (error + jsval) \<times> world" where
  "DatabaseService_backup env destinationPath s =
     (case backup_error env of
        Some e \<Rightarrow> (Inl e, s)
      | None \<Rightarrow> (Inr destinationPath, s\<lparr>files := insert destinationPath (files s)\<rparr>))"

text \<open>
  Modelled from the spec: \<^verbatim>\<open>DatabaseService.restore\<close> (\<^verbatim>\<open>./database.cjs\<close>) is not among
  the sources. The spec gives \<^verbatim>\<open>restore(sourcePath) -> void\<close>, which fails on a missing
  file, a corrupt format or a rejection by the backend; which of these happens is the
  environment's answer.
\<close>

definition DatabaseService_restore :: "env \<Rightarrow> string \<Rightarrow> world \<Rightarrow> (error + unit) \<times> world" where
  "DatabaseService_restore env sourcePath s =
     (case restore_error env of Some e \<Rightarrow> (Inl e, s) | None \<Rightarrow> (Inr (), s))"

text \<open>
  Modelled from the spec: \<^verbatim>\<open>DatabaseService.repair\<close> (\<^verbatim>\<open>./database.cjs\<close>) is not among
  the sources. The spec gives \<^verbatim>\<open>repair() -> void\<close>, a single attempt that may fail.
\<close>

definition DatabaseService_repair :: "env \<Rightarrow> world \<Rightarrow> (error + unit) \<times> world" where
  "DatabaseService_repair env s =
     (case repair_error env of Some e \<Rightarrow> (Inl e, s) | None \<Rightarrow> (Inr (), s))"

text \<open>
  Modelled from the spec: \<^verbatim>\<open>DatabaseService.close\<close> (\<^verbatim>\<open>./database.cjs\<close>) is not among
  the sources. The spec gives \<^verbatim>\<open>close() -> void\<close>.
\<close>

definition DatabaseService_close :: "world \<Rightarrow> world" where
  "DatabaseService_close s = s\<lparr>db_closed := True\<rparr>"

text \<open>A Drive client, bound to the credentials it was built from.\<close>

datatype drive = Drive jsval

text \<open>
  \<open>setupGoogleDrive\<close> catches whatever its body throws, logs it and returns \<^verbatim>\<open>null\<close>.
  Its body reads four properties of the credentials and builds the client.
\<close>

definition setupGoogleDrive_body :: "env \<Rightarrow> jsval \<Rightarrow> error + drive" where
  "setupGoogleDrive_body env creds =
     (case get_prop creds ''client_id'' of
        Inl e \<Rightarrow> Inl e
      | Inr v \<Rightarrow>
          (case drive_error env of
             Some e \<Rightarrow> Inl e
           | None \<Rightarrow> Inr (Drive creds)))"

definition setupGoogleDrive :: "env \<Rightarrow> jsval \<Rightarrow> world \<Rightarrow> drive option \<times> world" where
  "setupGoogleDrive env creds s =
     (case setupGoogleDrive_body env creds of
        Inl e \<Rightarrow> (None, console_error ''Error setting up Google Drive:'' e s)
      | Inr d \<Rightarrow> (Some d, s))"

text \<open>
  \<open>uploadToGoogleDrive\<close> sends the file, logs a failure and throws it again. The
  field \<open>uploads\<close> records every request sent.
\<close>

definition uploadToGoogleDrive ::
  "env \<Rightarrow> string \<Rightarrow> string \<Rightarrow> drive \<Rightarrow> world \<Rightarrow> (error + jsval) \<times> world" where
  "uploadToGoogleDrive env filePath fileName d s =
     (let s1 = s\<lparr>uploads := uploads s @ [(filePath, fileName)]\<rparr>
      in case upload_outcome env of
           Inl e \<Rightarrow> (Inl e, console_error ''Error uploading to Google Drive:'' e s1)
         | Inr fileId \<Rightarrow> (Inr fileId, s1))"

section \<open>The scheduled callback and the timer's tick\<close>

text \<open>
  The callback \<open>scheduleAutoBackup\<close> hands to \<^verbatim>\<open>cron.schedule\<close>: the body of its
  \<^verbatim>\<open>try\<close>, in which the first failing step ends the run, and the \<^verbatim>\<open>catch\<close> around it.
\<close>

definition auto_backup_upload ::
  "env \<Rightarrow> jsval \<Rightarrow> string \<Rightarrow> string \<Rightarrow> world \<Rightarrow> (error + unit) \<times> world" where
  "auto_backup_upload env driveCredentials backupPath fileName s =
     (if truthy driveCredentials then
        (case setupGoogleDrive env driveCredentials s of
           (None, s1) \<Rightarrow> (Inr (), s1)
         | (Some d, s1) \<Rightarrow>
             (case uploadToGoogleDrive env backupPath fileName d s1 of
                (Inl e, s2) \<Rightarrow> (Inl e, s2)
              | (Inr fileId, s2) \<Rightarrow>
                  (Inr (), console_log ''Backup uploaded to Google Drive successfully'' s2)))
      else (Inr (), s))"

definition auto_backup_body :: "env \<Rightarrow> jsval \<Rightarrow> world \<Rightarrow> (error + unit) \<times> world" where
  "auto_backup_body env driveCredentials s =
     (case ensureBackupDirectory env (console_log ''Starting automatic backup...'' s) of
        (Inl e, s1) \<Rightarrow> (Inl e, s1)
      | (Inr backupDir, s1) \<Rightarrow>
          (let backupPath = path_join env backupDir (auto_backup_name (now env))
           in case DatabaseService_backup env (JStr backupPath) s1 of
                (Inl e, s2) \<Rightarrow> (Inl e, s2)
              | (Inr r, s2) \<Rightarrow>
                  (case auto_backup_upload env driveCredentials backupPath
                          (auto_backup_name (now env)) s2 of
                     (Inl e, s3) \<Rightarrow> (Inl e, s3)
                   | (Inr u, s3) \<Rightarrow>
                       (Inr (), console_log ''Automatic backup completed successfully'' s3))))"

definition auto_backup_callback :: "env \<Rightarrow> jsval \<Rightarrow> world \<Rightarrow> (error + unit) \<times> world" where
  "auto_backup_callback env driveCredentials s =
     (case auto_backup_body env driveCredentials s of
        (Inl e, s1) \<Rightarrow> (Inr (), console_error ''Automatic backup failed:'' e s1)
      | (Inr u, s1) \<Rightarrow> (Inr u, s1))"

text \<open>
  One tick of the timer: node-cron calls the callback of every task that is running
  and whose pattern matches the current minute. An error that escaped a callback
  would end the tick with \<open>Inl\<close>.
\<close>

fun fire_tasks :: "env \<Rightarrow> nat list \<Rightarrow> world \<Rightarrow> (error + unit) \<times> world" where
  "fire_tasks env [] s = (Inr (), s)"
| "fire_tasks env (t # ts) s =
     (if running (tasks s ! t) \<and> cron_match env (pattern (tasks s ! t)) then
        (case auto_backup_callback env (credentials (tasks s ! t)) s of
           (Inl e, s1) \<Rightarrow> (Inl e, s1)
         | (Inr u, s1) \<Rightarrow> fire_tasks env ts s1)
      else fire_tasks env ts s)"

definition cron_tick :: "env \<Rightarrow> world \<Rightarrow> (error + unit) \<times> world" where
  "cron_tick env s = fire_tasks env [0 ..< length (tasks s)] s"

text \<open>How often the scheduled callback has been started.\<close>

definition fired :: "world \<Rightarrow> nat" where
  "fired s = length (filter (\<lambda>l. l = Log ''Starting automatic backup...'') (console s))"

section \<open>The handlers of the database management requests\<close>

text \<open>\<^verbatim>\<open>ipcMain.handle('backup-database', ...)\<close>\<close>

definition backup_database_body :: "env \<Rightarrow> world \<Rightarrow> (error + jsval) \<times> world" where
  "backup_database_body env s =
     (case ensureBackupDirectory env s of
        (Inl e, s1) \<Rightarrow> (Inl e, s1)
      | (Inr backupDir, s1) \<Rightarrow>
          (let backupPath = path_join env backupDir (backup_name (now env))
           in case DatabaseService_backup env (JStr backupPath) s1 of
                (Inl e, s2) \<Rightarrow> (Inl e, s2)
              | (Inr result, s2) \<Rightarrow>
                  (Inr (JObj [(''success'', JBool True), (''path'', result)]), s2)))"

definition backup_database :: "env \<Rightarrow> world \<Rightarrow> (error + jsval) \<times> world" where
  "backup_database env s =
     (case backup_database_body env s of
        (Inl e, s1) \<Rightarrow>
          (Inr (JObj [(''error'', JStr (message e))]), console_error ''Database backup error:'' e s1)
      | (Inr v, s1) \<Rightarrow> (Inr v, s1))"

text \<open>\<^verbatim>\<open>ipcMain.handle('restore-database', ...)\<close>\<close>

definition restore_database_body :: "env \<Rightarrow> world \<Rightarrow> (error + jsval) \<times> world" where
  "restore_database_body env s =
     (case ensureBackupDirectory env s of
        (Inl e, s1) \<Rightarrow> (Inl e, s1)
      | (Inr backupDir, s1) \<Rightarrow>
          (case open_dialog env of
             Inl e \<Rightarrow> (Inl e, s1)
           | Inr (canceled, filePaths) \<Rightarrow>
               (if canceled \<or> length filePaths = 0 then (Inr (JObj [(''canceled'', JBool True)]), s1)
                else
                  (case DatabaseService_restore env (filePaths ! 0) s1 of
                     (Inl e, s2) \<Rightarrow> (Inl e, s2)
                   | (Inr u, s2) \<Rightarrow>
                       (Inr (JObj [(''success'', JBool True), (''needRestart'', JBool True)]), s2)))))"

definition restore_database :: "env \<Rightarrow> world \<Rightarrow> (error + jsval) \<times> world" where
  "restore_database env s =
     (case restore_database_body env s of
        (Inl e, s1) \<Rightarrow>
          (Inr (JObj [(''error'', JStr (message e))]), console_error ''Database restore error:'' e s1)
      | (Inr v, s1) \<Rightarrow> (Inr v, s1))"

text \<open>\<^verbatim>\<open>ipcMain.handle('repair-database', ...)\<close>\<close>

definition repair_database :: "env \<Rightarrow> world \<Rightarrow> (error + jsval) \<times> world" where
  "repair_database env s =
     (case DatabaseService_repair env s of
        (Inl e, s1) \<Rightarrow>
          (Inr (JObj [(''error'', JStr (message e))]), console_error ''Database repair error:'' e s1)
      | (Inr u, s1) \<Rightarrow> (Inr (JObj [(''success'', JBool True)]), s1))"

text \<open>
  \<^verbatim>\<open>ipcMain.handle('backup-database-enhanced', ...)\<close>. The upload is the inner
  \<^verbatim>\<open>try\<close> of the handler: whatever it throws is logged and leaves \<^verbatim>\<open>driveFileId\<close> at
  \<^verbatim>\<open>null\<close>. \<^verbatim>\<open>path.basename\<close> throws a \<^verbatim>\<open>TypeError\<close> on a path that is not a string.
\<close>

definition enhanced_upload_body :: "env \<Rightarrow> jsval \<Rightarrow> jsval \<Rightarrow> world \<Rightarrow> (error + jsval) \<times> world" where
  "enhanced_upload_body env driveCredentials backupPath s =
     (case setupGoogleDrive env driveCredentials s of
        (None, s1) \<Rightarrow> (Inr JNull, s1)
      | (Some d, s1) \<Rightarrow>
          (case backupPath of
             JStr p \<Rightarrow> uploadToGoogleDrive env p (path_basename env p) d s1
           | _ \<Rightarrow> (Inl (Error ''The path argument must be of type string''), s1)))"

definition enhanced_upload :: "env \<Rightarrow> jsval \<Rightarrow> jsval \<Rightarrow> world \<Rightarrow> jsval \<times> world" where
  "enhanced_upload env driveCredentials backupPath s =
     (case enhanced_upload_body env driveCredentials backupPath s of
        (Inl e, s1) \<Rightarrow> (JNull, console_error ''Google Drive upload failed:'' e s1)
      | (Inr driveFileId, s1) \<Rightarrow> (driveFileId, s1))"

definition enhanced_backup_path :: "env \<Rightarrow> jsval \<Rightarrow> world \<Rightarrow> (error + jsval) \<times> world" where
  "enhanced_backup_path env customPath s =
     (if truthy customPath then (Inr customPath, s)
      else
        (case ensureBackupDirectory env s of
           (Inl e, s1) \<Rightarrow> (Inl e, s1)
         | (Inr backupDir, s1) \<Rightarrow>
             (Inr (JStr (path_join env backupDir (backup_name (now env)))), s1)))"

definition backup_database_enhanced_body :: "env \<Rightarrow> jsval \<Rightarrow> world \<Rightarrow> (error + jsval) \<times> world" where
  "backup_database_enhanced_body env options s =
     (case get_prop options ''customPath'' of
        Inl e \<Rightarrow> (Inl e, s)
      | Inr customPath \<Rightarrow>
          (case enhanced_backup_path env customPath s of
             (Inl e, s1) \<Rightarrow> (Inl e, s1)
           | (Inr backupPath, s1) \<Rightarrow>
               (case DatabaseService_backup env backupPath s1 of
                  (Inl e, s2) \<Rightarrow> (Inl e, s2)
                | (Inr r, s2) \<Rightarrow>
                    (case get_prop options ''uploadToDrive'' of
                       Inl e \<Rightarrow> (Inl e, s2)
                     | Inr uploadToDrive \<Rightarrow>
                         (case get_prop options ''driveCredentials'' of
                            Inl e \<Rightarrow> (Inl e, s2)
                          | Inr driveCredentials \<Rightarrow>
                              (let (driveFileId, s3) =
                                     (if truthy uploadToDrive \<and> truthy driveCredentials
                                      then enhanced_upload env driveCredentials backupPath s2
                                      else (JNull, s2))
                               in (Inr (JObj [(''success'', JBool True), (''path'', backupPath),
                                              (''driveFileId'', driveFileId)]), s3)))))))"

definition backup_database_enhanced :: "env \<Rightarrow> jsval \<Rightarrow> world \<Rightarrow> (error + jsval) \<times> world" where
  "backup_database_enhanced env options s =
     (case backup_database_enhanced_body env (default_param options (JObj [])) s of
        (Inl e, s1) \<Rightarrow>
          (Inr (JObj [(''error'', JStr (message e))]), console_error ''Enhanced backup error:'' e s1)
      | (Inr v, s1) \<Rightarrow> (Inr v, s1))"

text \<open>\<^verbatim>\<open>app.on('will-quit', ...)\<close>\<close>

definition will_quit :: "world \<Rightarrow> world" where
  "will_quit s =
     DatabaseService_close (case backupSchedule s of Some t \<Rightarrow> task_stop t s | None \<Rightarrow> s)"

section \<open>Login\<close>

text \<open>
  What the database and bcrypt answer during one login: the rows of the query for the
  user name (each row an object, given by its columns), and the comparison of the
  password with a hash.
\<close>

record auth_env =
  query_users :: "jsval \<Rightarrow> error + (string \<times> jsval) list list"
  bcrypt_compare :: "jsval \<Rightarrow> jsval \<Rightarrow> error + bool"

text \<open>
  The two messages of the handler are Arabic texts in the source (``the user name or
  the password is wrong'' and ``an error occurred during login''); they are rendered
  here in ASCII.
\<close>

definition wrong_credentials_message :: string where
  "wrong_credentials_message = ''username or password incorrect''"

definition login_error_message :: string where
  "login_error_message = ''an error occurred during login''"

text \<open>\<^verbatim>\<open>delete o.k\<close>\<close>

definition delete_prop :: "string \<Rightarrow> (string \<times> jsval) list \<Rightarrow> (string \<times> jsval) list" where
  "delete_prop k kvs = filter (\<lambda>kv. fst kv \<noteq> k) kvs"

definition login_body :: "auth_env \<Rightarrow> jsval \<Rightarrow> jsval \<Rightarrow> error + jsval" where
  "login_body a username password =
     (case query_users a username of
        Inl e \<Rightarrow> Inl e
      | Inr users \<Rightarrow>
          (if length users = 0 then
             Inr (JObj [(''success'', JBool False), (''message'', JStr wrong_credentials_message)])
           else
             (let userData = users ! 0
              in case get_prop (JObj userData) ''password_hash'' of
                   Inl e \<Rightarrow> Inl e
                 | Inr password_hash \<Rightarrow>
                     (case bcrypt_compare a password password_hash of
                        Inl e \<Rightarrow> Inl e
                      | Inr isValidPassword \<Rightarrow>
                          (if \<not> isValidPassword then
                             Inr (JObj [(''success'', JBool False),
                                        (''message'', JStr wrong_credentials_message)])
                           else
                             Inr (JObj [(''success'', JBool True),
                                        (''user'', JObj (delete_prop ''password_hash'' userData))]))))))"

definition login :: "auth_env \<Rightarrow> jsval \<Rightarrow> jsval \<Rightarrow> world \<Rightarrow> (error + jsval) \<times> world" where
  "login a username password s =
     (case login_body a username password of
        Inl e \<Rightarrow>
          (Inr (JObj [(''success'', JBool False), (''message'', JStr login_error_message)]),
           console_error ''Login error:'' e s)
      | Inr v \<Rightarrow> (Inr v, s))"

section \<open>Runs of the process\<close>

text \<open>
  The requests and events that reach the backup lifecycle, each with the environment
  of its run, and the state after a sequence of them.
\<close>

datatype event =
    SetupAutoBackup jsval jsval
  | BackupDatabase env
  | BackupDatabaseEnhanced env jsval
  | RestoreDatabase env
  | RepairDatabase env
  | CronTick env
  | WillQuit

fun step :: "event \<Rightarrow> world \<Rightarrow> world" where
  "step (SetupAutoBackup schedule creds) s = snd (setup_auto_backup schedule creds s)"
| "step (BackupDatabase env) s = snd (backup_database env s)"
| "step (BackupDatabaseEnhanced env options) s = snd (backup_database_enhanced env options s)"
| "step (RestoreDatabase env) s = snd (restore_database env s)"
| "step (RepairDatabase env) s = snd (repair_database env s)"
| "step (CronTick env) s = snd (cron_tick env s)"
| "step WillQuit s = will_quit s"

definition run :: "event list \<Rightarrow> world \<Rightarrow> world" where
  "run evs s = fold step evs s"

section \<open>Sample environments\<close>

text \<open>
  A run on the fifteenth of January 2024 at 10:30:45.123 UTC in which every step
  succeeds, with POSIX paths, and variants of it in which the storage backend, the
  upload, the creation of the backup directory or the file picker fails.
\<close>

definition env_ok :: env where
  "env_ok =
     \<lparr>now = \<lparr>year = 2024, month = 1, day = 15, hours = 10, minutes = 30, seconds = 45,
              millis = 123\<rparr>,
      userData = ''/home/gym/.config/gym'',
      path_join = (\<lambda>d n. d @ ''/'' @ n),
      path_basename = (\<lambda>p. rev (takeWhile (\<lambda>c. c \<noteq> CHR ''/'') (rev p))),
      mkdir_error = None,
      backup_error = None,
      restore_error = None,
      repair_error = None,
      drive_error = None,
      upload_outcome = Inr (JStr ''drive-file-1''),
      open_dialog = Inr (False, [''/home/gym/old.db'']),
      cron_match = (\<lambda>p. True)\<rparr>"

definition env_backend_fails :: env where
  "env_backend_fails =
     env_ok\<lparr>backup_error := Some (Error ''disk full''),
            restore_error := Some (Error ''disk full''),
            repair_error := Some (Error ''disk full'')\<rparr>"

definition env_upload_fails :: env where
  "env_upload_fails = env_ok\<lparr>upload_outcome := Inl (Error ''network unreachable'')\<rparr>"

definition env_mkdir_fails :: env where
  "env_mkdir_fails = env_ok\<lparr>mkdir_error := Some (Error ''EACCES: permission denied'')\<rparr>"

definition env_dialog_fails :: env where
  "env_dialog_fails = env_ok\<lparr>open_dialog := Inl (Error ''dialog failed'')\<rparr>"

definition sample_credentials :: jsval where
  "sample_credentials =
     JObj [(''client_id'', JStr ''id''), (''client_secret'', JStr ''secret''),
           (''redirect_uri'', JStr ''http://localhost''), (''refresh_token'', JStr ''token'')]"

section \<open>Notions used by the properties\<close>

text \<open>The frequencies that activate a schedule.\<close>

definition valid_frequencies :: "jsval list" where
  "valid_frequencies = [JStr ''daily'', JStr ''weekly'', JStr ''monthly'']"

text \<open>
  The invariant of the schedule: a trigger that is active is the one the global
  \<^verbatim>\<open>backupSchedule\<close> refers to.
\<close>

definition sched_inv :: "world \<Rightarrow> bool" where
  "sched_inv s = (\<forall>i < length (tasks s). running (tasks s ! i) \<longrightarrow> backupSchedule s = Some i)"

text \<open>The part of the state that holds the schedule.\<close>

definition sched_of :: "world \<Rightarrow> nat option \<times> cron_task list" where
  "sched_of s = (backupSchedule s, tasks s)"

text \<open>The events that configure a schedule with a trigger.\<close>

fun activates :: "event \<Rightarrow> bool" where
  "activates (SetupAutoBackup schedule creds) = (cronPattern schedule \<noteq> None)"
| "activates ev = False"

text \<open>A result that reports a failure: a rejected promise, or an object with an \<^verbatim>\<open>error\<close>.\<close>

definition is_error_result :: "error + jsval \<Rightarrow> bool" where
  "is_error_result r = (case r of Inl e \<Rightarrow> True | Inr v \<Rightarrow> get_prop v ''error'' \<noteq> Inr JUndefined)"

text \<open>
  The backup directory is there or can be made; the local part of a backup succeeds
  when, in addition, the storage backend writes the backup.
\<close>

definition backup_dir_available :: "env \<Rightarrow> world \<Rightarrow> bool" where
  "backup_dir_available env s =
     (path_join env (userData env) ''backups'' \<in> dirs s \<or> mkdir_error env = None)"

definition local_backup_succeeds :: "env \<Rightarrow> world \<Rightarrow> bool" where
  "local_backup_succeeds env w = (backup_dir_available env w \<and> backup_error env = None)"

text \<open>The state after a daily schedule with credentials was set up in a fresh process.\<close>

definition scheduled_world :: world where
  "scheduled_world = scheduleAutoBackup (JStr ''daily'') sample_credentials init_world"

text \<open>The timestamp of the file names: \<^verbatim>\<open>YYYY-MM-DDTHH-mm-ss\<close>.\<close>

definition stamp :: "date \<Rightarrow> string" where
  "stamp d =
     year_text (year d) @ ''-'' @ pad 2 (month d) @ ''-'' @ pad 2 (day d) @ ''T'' @
     pad 2 (hours d) @ ''-'' @ pad 2 (minutes d) @ ''-'' @ pad 2 (seconds d)"

text \<open>A character that neither replacement of the timestamp touches.\<close>

definition plain :: "char \<Rightarrow> bool" where
  "plain c = (c \<noteq> CHR '':'' \<and> c \<noteq> CHR ''.'' \<and> \<not> line_terminator c)"

text \<open>The default paths of a manual and of a scheduled backup, and the path the enhanced
  backup writes to.\<close>

definition default_backup_path :: "env \<Rightarrow> string" where
  "default_backup_path env =
     path_join env (path_join env (userData env) ''backups'') (backup_name (now env))"

definition chosen_backup_path :: "env \<Rightarrow> jsval \<Rightarrow> jsval" where
  "chosen_backup_path env customPath =
     (if truthy customPath then customPath else JStr (default_backup_path env))"

definition default_auto_backup_path :: "env \<Rightarrow> string" where
  "default_auto_backup_path env =
     path_join env (path_join env (userData env) ''backups'') (auto_backup_name (now env))"

text \<open>A request for an enhanced backup with an upload.\<close>

definition sample_options :: jsval where
  "sample_options = JObj [(''uploadToDrive'', JBool True), (''driveCredentials'', sample_credentials)]"

text \<open>The structured failure result \<^verbatim>\<open>{ error: error.message }\<close>.\<close>

definition error_result :: "error \<Rightarrow> jsval" where
  "error_result e = JObj [(''error'', JStr (message e))]"

text \<open>What the remote side fails with: building the client, or else the upload.\<close>

definition remote_error :: "env \<Rightarrow> error option" where
  "remote_error env =
     (case drive_error env of
        Some e \<Rightarrow> Some e
      | None \<Rightarrow> (case upload_outcome env of Inl e \<Rightarrow> Some e | Inr v \<Rightarrow> None))"

fun is_string :: "jsval \<Rightarrow> bool" where
  "is_string (JStr p) = True"
| "is_string v = False"

text \<open>\<^verbatim>\<open>Object.keys(v)\<close>\<close>

fun own_keys :: "jsval \<Rightarrow> string list" where
  "own_keys (JObj kvs) = map fst kvs"
| "own_keys v = []"

text \<open>A database with one active user, \<^verbatim>\<open>admin\<close>, whose password is \<^verbatim>\<open>secret\<close>.\<close>

definition sample_auth :: auth_env where
  "sample_auth =
     \<lparr>query_users = (\<lambda>username.
        if username = JStr ''admin''
        then Inr [[(''id'', JNum 1), (''username'', JStr ''admin''),
                   (''password_hash'', JStr ''bcrypt-hash-of-secret''),
                   (''gym_id'', JNum 1), (''gym_name'', JStr ''Main Gym'')]]
        else Inr []),
      bcrypt_compare = (\<lambda>password hash.
        Inr (password = JStr ''secret'' \<and> hash = JStr ''bcrypt-hash-of-secret''))\<rparr>"

text \<open>
  The failure of the local steps of a handler, if one fails: what creating the backup
  directory throws, what the file picker rejects with, what the storage backend rejects
  with, in the order in which the handler reaches them.
\<close>

definition mkdir_failure :: "env \<Rightarrow> world \<Rightarrow> error option" where
  "mkdir_failure env s =
     (if path_join env (userData env) ''backups'' \<in> dirs s then None else mkdir_error env)"

definition backup_failure :: "env \<Rightarrow> world \<Rightarrow> error option" where
  "backup_failure env s =
     (case mkdir_failure env s of Some e \<Rightarrow> Some e | None \<Rightarrow> backup_error env)"

definition enhanced_failure :: "env \<Rightarrow> jsval \<Rightarrow> world \<Rightarrow> error option" where
  "enhanced_failure env options s =
     (case get_prop (default_param options (JObj [])) ''customPath'' of
        Inl e \<Rightarrow> Some e
      | Inr customPath \<Rightarrow>
          (if truthy customPath then backup_error env else backup_failure env s))"

definition restore_failure :: "env \<Rightarrow> world \<Rightarrow> error option" where
  "restore_failure env s =
     (case mkdir_failure env s of
        Some e \<Rightarrow> Some e
      | None \<Rightarrow>
          (case open_dialog env of
             Inl e \<Rightarrow> Some e
           | Inr (canceled, filePaths) \<Rightarrow>
               (if canceled \<or> filePaths = [] then None else restore_error env)))"

section \<open>The handlers on the event loop\<close>

text \<open>
  A handler is an \<^verbatim>\<open>async\<close> function: it runs until its next \<^verbatim>\<open>await\<close>, hands control
  back to the event loop, and continues in a later turn, when the awaited promise has
  settled. Between two turns of one run the loop may run turns of other runs. The
  handlers that call the storage backend are cut here at their \<^verbatim>\<open>await\<close>s; the state of
  the loop holds the runs that wait, and a trace of the backend calls that began and
  completed.
\<close>

datatype operation = OpBackup | OpRestore | OpRepair

datatype trace_event = Begin nat operation | Done nat operation

datatype await =
    AwaitDialog                        \<comment> \<open>\<^verbatim>\<open>restore-database\<close> at \<^verbatim>\<open>await dialog.showOpenDialog(...)\<close>\<close>
  | AwaitRestore string                \<comment> \<open>\<^verbatim>\<open>restore-database\<close> at \<^verbatim>\<open>await DatabaseService.restore(backupPath)\<close>\<close>
  | AwaitBackup string                 \<comment> \<open>\<^verbatim>\<open>backup-database\<close> at \<^verbatim>\<open>await DatabaseService.backup(backupPath)\<close>\<close>
  | AwaitRepair                        \<comment> \<open>\<^verbatim>\<open>repair-database\<close> at \<^verbatim>\<open>await DatabaseService.repair()\<close>\<close>
  | AwaitAutoBackup jsval string string
      \<comment> \<open>the scheduled callback at \<^verbatim>\<open>await DatabaseService.backup(backupPath)\<close>, with its
          \<^verbatim>\<open>driveCredentials\<close>, \<^verbatim>\<open>backupPath\<close> and file name\<close>

record loop =
  base :: world
  pending :: "(nat \<times> await) list"
  trace :: "trace_event list"
  next_run :: nat
  answers :: "(nat \<times> jsval) list"

definition loop_init :: "world \<Rightarrow> loop" where
  "loop_init s = \<lparr>base = s, pending = [], trace = [], next_run = 0, answers = []\<rparr>"

definition emit :: "trace_event \<Rightarrow> loop \<Rightarrow> loop" where
  "emit ev l = l\<lparr>trace := trace l @ [ev]\<rparr>"

definition leave :: "nat \<Rightarrow> loop \<Rightarrow> loop" where
  "leave r l = l\<lparr>pending := filter (\<lambda>p. fst p \<noteq> r) (pending l)\<rparr>"

definition wait_for :: "nat \<Rightarrow> await \<Rightarrow> loop \<Rightarrow> loop" where
  "wait_for r a l = l\<lparr>pending := (r, a) # filter (\<lambda>p. fst p \<noteq> r) (pending l)\<rparr>"

definition answer :: "nat \<Rightarrow> jsval \<Rightarrow> loop \<Rightarrow> loop" where
  "answer r v l = (leave r l)\<lparr>answers := answers l @ [(r, v)]\<rparr>"

text \<open>\<^verbatim>\<open>backup-database\<close>: up to the call of the backend, and from its completion on.\<close>

definition backup_begin :: "nat \<Rightarrow> env \<Rightarrow> loop \<Rightarrow> loop" where
  "backup_begin r env l =
     (case ensureBackupDirectory env (base l) of
        (Inl e, s1) \<Rightarrow>
          answer r (JObj [(''error'', JStr (message e))])
            (l\<lparr>base := console_error ''Database backup error:'' e s1\<rparr>)
      | (Inr backupDir, s1) \<Rightarrow>
          wait_for r (AwaitBackup (path_join env backupDir (backup_name (now env))))
            (emit (Begin r OpBackup) (l\<lparr>base := s1\<rparr>)))"

definition backup_settled :: "nat \<Rightarrow> env \<Rightarrow> string \<Rightarrow> loop \<Rightarrow> loop" where
  "backup_settled r env backupPath l =
     (case DatabaseService_backup env (JStr backupPath) (base l) of
        (Inl e, s2) \<Rightarrow>
          answer r (JObj [(''error'', JStr (message e))])
            (emit (Done r OpBackup) (l\<lparr>base := console_error ''Database backup error:'' e s2\<rparr>))
      | (Inr result, s2) \<Rightarrow>
          answer r (JObj [(''success'', JBool True), (''path'', result)])
            (emit (Done r OpBackup) (l\<lparr>base := s2\<rparr>)))"

text \<open>\<^verbatim>\<open>restore-database\<close>: up to the file picker, from there to the call of the backend,
  and from its completion on.\<close>

definition restore_begin :: "nat \<Rightarrow> env \<Rightarrow> loop \<Rightarrow> loop" where
  "restore_begin r env l =
     (case ensureBackupDirectory env (base l) of
        (Inl e, s1) \<Rightarrow>
          answer r (JObj [(''error'', JStr (message e))])
            (l\<lparr>base := console_error ''Database restore error:'' e s1\<rparr>)
      | (Inr backupDir, s1) \<Rightarrow> wait_for r AwaitDialog (l\<lparr>base := s1\<rparr>))"

definition restore_dialog_settled :: "nat \<Rightarrow> env \<Rightarrow> loop \<Rightarrow> loop" where
  "restore_dialog_settled r env l =
     (case open_dialog env of
        Inl e \<Rightarrow>
          answer r (JObj [(''error'', JStr (message e))])
            (l\<lparr>base := console_error ''Database restore error:'' e (base l)\<rparr>)
      | Inr (canceled, filePaths) \<Rightarrow>
          (if canceled \<or> length filePaths = 0 then answer r (JObj [(''canceled'', JBool True)]) l
           else wait_for r (AwaitRestore (filePaths ! 0)) (emit (Begin r OpRestore) l)))"

definition restore_settled :: "nat \<Rightarrow> env \<Rightarrow> string \<Rightarrow> loop \<Rightarrow> loop" where
  "restore_settled r env backupPath l =
     (case DatabaseService_restore env backupPath (base l) of
        (Inl e, s2) \<Rightarrow>
          answer r (JObj [(''error'', JStr (message e))])
            (emit (Done r OpRestore) (l\<lparr>base := console_error ''Database restore error:'' e s2\<rparr>))
      | (Inr u, s2) \<Rightarrow>
          answer r (JObj [(''success'', JBool True), (''needRestart'', JBool True)])
            (emit (Done r OpRestore) (l\<lparr>base := s2\<rparr>)))"

text \<open>\<^verbatim>\<open>repair-database\<close>\<close>

definition repair_begin :: "nat \<Rightarrow> env \<Rightarrow> loop \<Rightarrow> loop" where
  "repair_begin r env l = wait_for r AwaitRepair (emit (Begin r OpRepair) l)"

definition repair_settled :: "nat \<Rightarrow> env \<Rightarrow> loop \<Rightarrow> loop" where
  "repair_settled r env l =
     (case DatabaseService_repair env (base l) of
        (Inl e, s1) \<Rightarrow>
          answer r (JObj [(''error'', JStr (message e))])
            (emit (Done r OpRepair) (l\<lparr>base := console_error ''Database repair error:'' e s1\<rparr>))
      | (Inr u, s1) \<Rightarrow>
          answer r (JObj [(''success'', JBool True)]) (emit (Done r OpRepair) (l\<lparr>base := s1\<rparr>)))"

text \<open>
  The scheduled callback: up to the call of the backend, and from its completion on.
  The upload that follows is not a call of the storage backend; its \<^verbatim>\<open>await\<close> is not cut.
\<close>

definition auto_begin :: "nat \<Rightarrow> env \<Rightarrow> jsval \<Rightarrow> loop \<Rightarrow> loop" where
  "auto_begin r env driveCredentials l =
     (case ensureBackupDirectory env (console_log ''Starting automatic backup...'' (base l)) of
        (Inl e, s1) \<Rightarrow> leave r (l\<lparr>base := console_error ''Automatic backup failed:'' e s1\<rparr>)
      | (Inr backupDir, s1) \<Rightarrow>
          wait_for r
            (AwaitAutoBackup driveCredentials
               (path_join env backupDir (auto_backup_name (now env)))
               (auto_backup_name (now env)))
            (emit (Begin r OpBackup) (l\<lparr>base := s1\<rparr>)))"

definition auto_settled :: "nat \<Rightarrow> env \<Rightarrow> jsval \<Rightarrow> string \<Rightarrow> string \<Rightarrow> loop \<Rightarrow> loop" where
  "auto_settled r env driveCredentials backupPath fileName l =
     (case DatabaseService_backup env (JStr backupPath) (base l) of
        (Inl e, s2) \<Rightarrow>
          leave r (emit (Done r OpBackup)
            (l\<lparr>base := console_error ''Automatic backup failed:'' e s2\<rparr>))
      | (Inr result, s2) \<Rightarrow>
          (case auto_backup_upload env driveCredentials backupPath fileName s2 of
             (Inl e, s3) \<Rightarrow>
               leave r (emit (Done r OpBackup)
                 (l\<lparr>base := console_error ''Automatic backup failed:'' e s3\<rparr>))
           | (Inr u, s3) \<Rightarrow>
               leave r (emit (Done r OpBackup)
                 (l\<lparr>base := console_log ''Automatic backup completed successfully'' s3\<rparr>))))"

text \<open>
  The turns of the loop: a request arrives and its handler runs to its first \<^verbatim>\<open>await\<close>;
  the timer ticks and the callback of each running task that matches does the same;
  the promise a run waits for settles and the run continues.
\<close>

datatype request = ReqBackup | ReqRestore | ReqRepair

datatype turn = Request request env | Tick env | Settle nat env

definition fresh :: "loop \<Rightarrow> loop" where
  "fresh l = l\<lparr>next_run := Suc (next_run l)\<rparr>"

fun loop_fire :: "env \<Rightarrow> nat list \<Rightarrow> loop \<Rightarrow> loop" where
  "loop_fire env [] l = l"
| "loop_fire env (t # ts) l =
     (if running (tasks (base l) ! t) \<and> cron_match env (pattern (tasks (base l) ! t))
      then loop_fire env ts (auto_begin (next_run l) env (credentials (tasks (base l) ! t)) (fresh l))
      else loop_fire env ts l)"

fun continue :: "nat \<Rightarrow> env \<Rightarrow> await \<Rightarrow> loop \<Rightarrow> loop" where
  "continue r env AwaitDialog l = restore_dialog_settled r env l"
| "continue r env (AwaitRestore backupPath) l = restore_settled r env backupPath l"
| "continue r env (AwaitBackup backupPath) l = backup_settled r env backupPath l"
| "continue r env AwaitRepair l = repair_settled r env l"
| "continue r env (AwaitAutoBackup driveCredentials backupPath fileName) l =
     auto_settled r env driveCredentials backupPath fileName l"

fun loop_step :: "turn \<Rightarrow> loop \<Rightarrow> loop" where
  "loop_step (Request ReqBackup env) l = backup_begin (next_run l) env (fresh l)"
| "loop_step (Request ReqRestore env) l = restore_begin (next_run l) env (fresh l)"
| "loop_step (Request ReqRepair env) l = repair_begin (next_run l) env (fresh l)"
| "loop_step (Tick env) l = loop_fire env [0 ..< length (tasks (base l))] l"
| "loop_step (Settle r env) l =
     (case map_of (pending l) r of None \<Rightarrow> l | Some a \<Rightarrow> continue r env a l)"

definition loop_run :: "turn list \<Rightarrow> loop \<Rightarrow> loop" where
  "loop_run ts l = fold loop_step ts l"

text \<open>
  A trace is serialized when no backend call begins while another one is in flight.
\<close>

fun serialized_from :: "nat option \<Rightarrow> trace_event list \<Rightarrow> bool" where
  "serialized_from cur [] = True"
| "serialized_from None (Begin r p # t) = serialized_from (Some r) t"
| "serialized_from (Some r') (Begin r p # t) = False"
| "serialized_from cur (Done r p # t) = (cur = Some r \<and> serialized_from None t)"

definition serialized :: "trace_event list \<Rightarrow> bool" where
  "serialized t = serialized_from None t"

text \<open>
  A restore whose backend call is in flight, in a process with a daily schedule, and
  the same with a second restore waiting for its file picker.
\<close>

definition restore_in_flight :: loop where
  "restore_in_flight =
     loop_run [Request ReqRestore env_ok, Settle 0 env_ok] (loop_init scheduled_world)"

definition second_restore_waiting :: loop where
  "second_restore_waiting = loop_step (Request ReqRestore env_ok) restore_in_flight"

section \<open>The schedule invariant\<close>

lemma sched_inv_init: "sched_inv init_world"
  by (simp add: sched_inv_def init_world_def)

lemma length_set_running [simp]: "length (set_running t b ts) = length ts"
  by (simp add: set_running_def)

lemma nth_set_running:
  "i < length ts \<Longrightarrow> running (set_running t b ts ! i) = (if i = t then b else running (ts ! i))"
  by (simp add: set_running_def nth_list_update)

lemma stop_previous_none_running:
  "sched_inv s \<Longrightarrow> i < length (tasks (stop_previous s)) \<Longrightarrow> \<not> running (tasks (stop_previous s) ! i)"
  by (auto simp: sched_inv_def stop_previous_def task_stop_def nth_set_running split: option.splits)

lemma stop_previous_simps [simp]:
  "backupSchedule (stop_previous s) = None"
  "length (tasks (stop_previous s)) = length (tasks s)"
  by (auto simp: stop_previous_def task_stop_def split: option.splits)

lemma active_triggers_empty_iff:
  "active_triggers s = [] \<longleftrightarrow> (\<forall>i < length (tasks s). \<not> running (tasks s ! i))"
  by (auto simp: active_triggers_def filter_empty_conv)

lemma scheduleAutoBackup_valid:
  assumes "cronPattern f = Some p"
  shows "scheduleAutoBackup f c s =
     console_log (''Automatic backup scheduled: '' @ template_text f)
       (task_start (length (tasks s))
          ((snd (cron_schedule p (default_param c JNull) (stop_previous s)))\<lparr>backupSchedule := Some (length (tasks s))\<rparr>))"
  using assms
  by (auto simp: scheduleAutoBackup_def Let_def stop_previous_def cronPattern_def cron_schedule_def task_stop_def
      split: option.splits if_splits)

lemma scheduleAutoBackup_invalid:
  assumes "cronPattern f = None"
  shows "scheduleAutoBackup f c s = stop_previous s"
  using assms
  by (auto simp: scheduleAutoBackup_def Let_def stop_previous_def split: option.splits)

lemma snoc_update_last: "n = length xs \<Longrightarrow> (xs @ [x])[n := y] = xs @ [y]"
  by simp

lemma snoc_nth_last: "n = length xs \<Longrightarrow> (xs @ [x]) ! n = x"
  by simp

lemma scheduleAutoBackup_valid_tasks:
  assumes "cronPattern f = Some p"
  shows "tasks (scheduleAutoBackup f c s) =
           tasks (stop_previous s) @ [\<lparr>pattern = p, running = True, credentials = default_param c JNull\<rparr>]"
    and "backupSchedule (scheduleAutoBackup f c s) = Some (length (tasks s))"
  by (simp_all add: scheduleAutoBackup_valid[OF assms] console_log_def task_start_def cron_schedule_def set_running_def
      snoc_update_last snoc_nth_last)

lemma active_triggers_valid:
  assumes "cronPattern f = Some p" "sched_inv s"
  shows "active_triggers (scheduleAutoBackup f c s) = [length (tasks s)]"
proof -
  have "filter (\<lambda>i. running ((tasks (stop_previous s) @ [\<lparr>pattern = p, running = True, credentials = default_param c JNull\<rparr>]) ! i)) [0 ..< length (tasks s)] = []"
    using stop_previous_none_running[OF assms(2)]
    by (auto simp: filter_empty_conv nth_append)
  then show ?thesis
    by (simp add: active_triggers_def scheduleAutoBackup_valid_tasks[OF assms(1)] nth_append)
qed

lemma sched_of_console [simp]:
  "sched_of (console_log txt s) = sched_of s"
  "sched_of (console_error txt e s) = sched_of s"
  by (simp_all add: sched_of_def console_log_def console_error_def)

lemma sched_of_ensureBackupDirectory:
  "ensureBackupDirectory env s = (r, s') \<Longrightarrow> sched_of s' = sched_of s"
  by (auto simp: ensureBackupDirectory_def Let_def sched_of_def split: if_splits option.splits)

lemma sched_of_backup:
  "DatabaseService_backup env p s = (r, s') \<Longrightarrow> sched_of s' = sched_of s"
  by (auto simp: DatabaseService_backup_def sched_of_def split: option.splits)

lemma sched_of_restore:
  "DatabaseService_restore env p s = (r, s') \<Longrightarrow> sched_of s' = sched_of s"
  by (auto simp: DatabaseService_restore_def split: option.splits)

lemma sched_of_repair:
  "DatabaseService_repair env s = (r, s') \<Longrightarrow> sched_of s' = sched_of s"
  by (auto simp: DatabaseService_repair_def split: option.splits)

lemma sched_of_setupGoogleDrive:
  "setupGoogleDrive env c s = (r, s') \<Longrightarrow> sched_of s' = sched_of s"
  by (auto simp: setupGoogleDrive_def split: sum.splits)

lemma sched_of_uploadToGoogleDrive:
  "uploadToGoogleDrive env p n d s = (r, s') \<Longrightarrow> sched_of s' = sched_of s"
  by (auto simp: uploadToGoogleDrive_def Let_def sched_of_def console_error_def split: sum.splits)

lemmas sched_of_prims = sched_of_ensureBackupDirectory sched_of_backup sched_of_restore
  sched_of_repair sched_of_setupGoogleDrive sched_of_uploadToGoogleDrive

lemma sched_of_auto_backup_upload:
  "auto_backup_upload env c p n s = (r, s') \<Longrightarrow> sched_of s' = sched_of s"
  by (auto simp: auto_backup_upload_def split: if_splits prod.splits option.splits sum.splits
      dest!: sched_of_prims)

lemma sched_of_auto_backup_callback:
  "auto_backup_callback env c s = (r, s') \<Longrightarrow> sched_of s' = sched_of s"
  by (auto simp: auto_backup_callback_def auto_backup_body_def Let_def
      split: prod.splits sum.splits
      dest!: sched_of_prims sched_of_auto_backup_upload)

lemma sched_of_fire_tasks:
  "fire_tasks env ts s = (r, s') \<Longrightarrow> sched_of s' = sched_of s"
proof (induction ts arbitrary: s)
  case Nil
  then show ?case by simp
next
  case (Cons t ts)
  then show ?case
    by (auto split: if_splits prod.splits sum.splits dest!: sched_of_auto_backup_callback)
qed

lemma sched_of_backup_database:
  "sched_of (snd (backup_database env s)) = sched_of s"
  by (auto simp: backup_database_def backup_database_body_def Let_def
      split: prod.splits sum.splits dest!: sched_of_prims)

lemma sched_of_restore_database:
  "sched_of (snd (restore_database env s)) = sched_of s"
  by (auto simp: restore_database_def restore_database_body_def Let_def
      split: prod.splits sum.splits if_splits dest!: sched_of_prims)

lemma sched_of_repair_database:
  "sched_of (snd (repair_database env s)) = sched_of s"
  by (auto simp: repair_database_def
      split: prod.splits sum.splits if_splits dest!: sched_of_prims)

lemma sched_of_enhanced_upload:
  "enhanced_upload env c p s = (r, s') \<Longrightarrow> sched_of s' = sched_of s"
  by (auto simp: enhanced_upload_def enhanced_upload_body_def
      split: prod.splits sum.splits option.splits jsval.splits dest!: sched_of_prims)

lemma sched_of_enhanced_backup_path:
  "enhanced_backup_path env c s = (r, s') \<Longrightarrow> sched_of s' = sched_of s"
  by (auto simp: enhanced_backup_path_def
      split: prod.splits sum.splits if_splits dest!: sched_of_prims)

lemma sched_of_backup_database_enhanced:
  "sched_of (snd (backup_database_enhanced env opts s)) = sched_of s"
  by (auto simp: backup_database_enhanced_def backup_database_enhanced_body_def Let_def
      split: prod.splits sum.splits if_splits
      dest!: sched_of_prims sched_of_enhanced_upload sched_of_enhanced_backup_path)

lemma sched_of_cron_tick:
  "sched_of (snd (cron_tick env s)) = sched_of s"
  by (metis cron_tick_def sched_of_fire_tasks prod.collapse)

lemma sched_inv_sched_of: "sched_of s' = sched_of s \<Longrightarrow> sched_inv s' = sched_inv s"
  by (simp add: sched_inv_def sched_of_def)

lemma sched_inv_stop_previous: "sched_inv s \<Longrightarrow> sched_inv (stop_previous s)"
  using stop_previous_none_running[of s] by (simp add: sched_inv_def)

lemma sched_inv_scheduleAutoBackup:
  assumes "sched_inv s"
  shows "sched_inv (scheduleAutoBackup f c s)"
proof (cases "cronPattern f")
  case None
  then show ?thesis
    by (simp add: scheduleAutoBackup_invalid sched_inv_stop_previous assms)
next
  case (Some p)
  have "i < Suc (length (tasks s)) \<Longrightarrow>
        running ((tasks (stop_previous s) @ [\<lparr>pattern = p, running = True, credentials = default_param c JNull\<rparr>]) ! i)
        \<Longrightarrow> i = length (tasks s)" for i
    using stop_previous_none_running[OF assms, of i]
    by (cases "i < length (tasks s)") (auto simp: nth_append)
  then show ?thesis
    by (auto simp: sched_inv_def scheduleAutoBackup_valid_tasks[OF Some])
qed

lemma sched_inv_will_quit: "sched_inv s \<Longrightarrow> sched_inv (will_quit s)"
  by (auto simp: sched_inv_def will_quit_def DatabaseService_close_def task_stop_def nth_set_running
      split: option.splits)

lemma default_param_idem [simp]:
  "default_param (default_param c JNull) JNull = default_param c JNull"
  by (cases c) simp_all

lemma scheduleAutoBackup_default:
  "scheduleAutoBackup f (default_param c JNull) s = scheduleAutoBackup f c s"
  unfolding scheduleAutoBackup_def default_param_idem ..

lemma snd_setup_auto_backup [simp]:
  "snd (setup_auto_backup f c s) = scheduleAutoBackup f c s"
  by (simp add: setup_auto_backup_def Let_def scheduleAutoBackup_default)

lemma sched_inv_step: "sched_inv s \<Longrightarrow> sched_inv (step ev s)"
  by (cases ev)
     (simp_all add: sched_inv_scheduleAutoBackup sched_inv_will_quit
        sched_inv_sched_of[OF sched_of_backup_database]
        sched_inv_sched_of[OF sched_of_backup_database_enhanced]
        sched_inv_sched_of[OF sched_of_restore_database]
        sched_inv_sched_of[OF sched_of_repair_database]
        sched_inv_sched_of[OF sched_of_cron_tick])

lemma sched_inv_run: "sched_inv s \<Longrightarrow> sched_inv (run evs s)"
  unfolding run_def by (induction evs arbitrary: s) (simp_all add: sched_inv_step)

lemma sched_inv_at_most_one: 
  assumes "sched_inv s"
  shows "length (active_triggers s) \<le> 1"
proof (cases "backupSchedule s")
  case None
  with assms have "active_triggers s = []"
    by (simp add: active_triggers_empty_iff sched_inv_def)
  then show ?thesis by simp
next
  case (Some t)
  have d: "distinct (active_triggers s)"
    by (simp add: active_triggers_def)
  have "set (active_triggers s) \<subseteq> {t}"
    using assms Some by (auto simp: active_triggers_def sched_inv_def)
  then have "card (set (active_triggers s)) \<le> 1"
    by (metis card_mono card.empty card_insert_disjoint finite.emptyI finite.insertI empty_iff One_nat_def) 
  with d show ?thesis
    by (simp add: distinct_card)
qed

lemma fired_console_log:
  "fired (console_log txt s) = fired s + (if txt = ''Starting automatic backup...'' then 1 else 0)"
  by (simp add: fired_def console_log_def)

lemma fired_console_error [simp]: "fired (console_error txt e s) = fired s"
  by (simp add: fired_def console_error_def)

lemma fired_ensureBackupDirectory:
  "ensureBackupDirectory env s = (r, s') \<Longrightarrow> fired s' = fired s"
  by (auto simp: ensureBackupDirectory_def Let_def fired_def split: if_splits option.splits)

lemma fired_backup:
  "DatabaseService_backup env p s = (r, s') \<Longrightarrow> fired s' = fired s"
  by (auto simp: DatabaseService_backup_def fired_def split: option.splits)

lemma fired_restore:
  "DatabaseService_restore env p s = (r, s') \<Longrightarrow> fired s' = fired s"
  by (auto simp: DatabaseService_restore_def split: option.splits)

lemma fired_repair:
  "DatabaseService_repair env s = (r, s') \<Longrightarrow> fired s' = fired s"
  by (auto simp: DatabaseService_repair_def split: option.splits)

lemma fired_setupGoogleDrive:
  "setupGoogleDrive env c s = (r, s') \<Longrightarrow> fired s' = fired s"
  by (auto simp: setupGoogleDrive_def split: sum.splits)

lemma fired_uploadToGoogleDrive:
  "uploadToGoogleDrive env p n d s = (r, s') \<Longrightarrow> fired s' = fired s"
  by (auto simp: uploadToGoogleDrive_def Let_def fired_def console_error_def split: sum.splits)

lemmas fired_prims = fired_ensureBackupDirectory fired_backup fired_restore
  fired_repair fired_setupGoogleDrive fired_uploadToGoogleDrive

lemma fired_auto_backup_upload:
  "auto_backup_upload env c p n s = (r, s') \<Longrightarrow> fired s' = fired s"
  by (auto simp: auto_backup_upload_def fired_console_log
      split: if_splits prod.splits option.splits sum.splits
      dest!: fired_prims)

lemma fired_auto_backup_body:
  "auto_backup_body env c s = (r, s') \<Longrightarrow> fired s' = Suc (fired s)"
  by (auto simp: auto_backup_body_def Let_def fired_console_log
      split: prod.splits sum.splits
      dest!: fired_prims fired_auto_backup_upload)

lemma auto_backup_callback_returns:
  "fst (auto_backup_callback env c s) = Inr ()"
  by (simp add: auto_backup_callback_def split: prod.splits sum.splits)

lemma fired_auto_backup_callback:
  "auto_backup_callback env c s = (r, s') \<Longrightarrow> fired s' = Suc (fired s)"
  by (auto simp: auto_backup_callback_def split: prod.splits sum.splits
      dest!: fired_auto_backup_body)

lemma fire_tasks_result:
  "fire_tasks env ts s = (r, s') \<Longrightarrow>
     r = Inr () \<and>
     fired s' = fired s +
       length (filter (\<lambda>t. running (tasks s ! t) \<and> cron_match env (pattern (tasks s ! t))) ts)"
proof (induction ts arbitrary: s)
  case Nil
  then show ?case by simp
next
  case (Cons t ts)
  show ?case
  proof (cases "running (tasks s ! t) \<and> cron_match env (pattern (tasks s ! t))")
    case False
    with Cons show ?thesis by auto
  next
    case True
    obtain r1 s1 where cb: "auto_backup_callback env (credentials (tasks s ! t)) s = (r1, s1)"
      by (cases "auto_backup_callback env (credentials (tasks s ! t)) s")
    have r1: "r1 = Inr ()"
      using auto_backup_callback_returns[of env "credentials (tasks s ! t)" s] cb by simp
    have t1: "tasks s1 = tasks s"
      using sched_of_auto_backup_callback[OF cb] by (simp add: sched_of_def)
    have f1: "fired s1 = Suc (fired s)"
      by (rule fired_auto_backup_callback[OF cb])
    from Cons.prems True cb r1 have "fire_tasks env ts s1 = (r, s')"
      by simp
    from Cons.IH[OF this] show ?thesis
      using True by (simp add: t1 f1)
  qed
qed

lemma active_filter:
  "filter (\<lambda>t. running (tasks s ! t) \<and> cron_match env (pattern (tasks s ! t))) [0 ..< length (tasks s)]
   = filter (\<lambda>t. cron_match env (pattern (tasks s ! t))) (active_triggers s)"
  by (simp add: active_triggers_def conj_commute)

lemma cron_tick_returns: "fst (cron_tick env s) = Inr ()"
  using fire_tasks_result[of env "[0 ..< length (tasks s)]" s]
  by (cases "cron_tick env s") (simp add: cron_tick_def)

lemma fired_cron_tick:
  "fired (snd (cron_tick env s)) =
     fired s + length (filter (\<lambda>t. cron_match env (pattern (tasks s ! t))) (active_triggers s))"
  using fire_tasks_result[of env "[0 ..< length (tasks s)]" s]
  by (cases "cron_tick env s") (simp add: cron_tick_def active_filter)

lemma active_triggers_sched_of:
  "sched_of s' = sched_of s \<Longrightarrow> active_triggers s' = active_triggers s"
  by (simp add: sched_of_def active_triggers_def)

lemma fired_backup_database:
  "fired (snd (backup_database env s)) = fired s"
  by (auto simp: backup_database_def backup_database_body_def Let_def
      split: prod.splits sum.splits dest!: fired_prims)

lemma fired_restore_database:
  "fired (snd (restore_database env s)) = fired s"
  by (auto simp: restore_database_def restore_database_body_def Let_def
      split: prod.splits sum.splits if_splits dest!: fired_prims)

lemma fired_repair_database:
  "fired (snd (repair_database env s)) = fired s"
  by (auto simp: repair_database_def
      split: prod.splits sum.splits if_splits dest!: fired_prims)

lemma fired_enhanced_upload:
  "enhanced_upload env c p s = (r, s') \<Longrightarrow> fired s' = fired s"
  by (auto simp: enhanced_upload_def enhanced_upload_body_def
      split: prod.splits sum.splits option.splits jsval.splits dest!: fired_prims)

lemma fired_enhanced_backup_path:
  "enhanced_backup_path env c s = (r, s') \<Longrightarrow> fired s' = fired s"
  by (auto simp: enhanced_backup_path_def
      split: prod.splits sum.splits if_splits dest!: fired_prims)

lemma fired_backup_database_enhanced:
  "fired (snd (backup_database_enhanced env opts s)) = fired s"
  by (auto simp: backup_database_enhanced_def backup_database_enhanced_body_def Let_def
      split: prod.splits sum.splits if_splits
      dest!: fired_prims fired_enhanced_upload fired_enhanced_backup_path)

lemma fired_stop_previous [simp]: "fired (stop_previous s) = fired s"
  by (simp add: stop_previous_def task_stop_def fired_def split: option.splits)

lemma fired_will_quit [simp]: "fired (will_quit s) = fired s"
  by (simp add: will_quit_def DatabaseService_close_def task_stop_def fired_def split: option.splits)

lemma idle_stop_previous: "active_triggers s = [] \<Longrightarrow> active_triggers (stop_previous s) = []"
  by (auto simp: active_triggers_empty_iff stop_previous_def task_stop_def nth_set_running
      split: option.splits)

lemma idle_will_quit: "active_triggers s = [] \<Longrightarrow> active_triggers (will_quit s) = []"
  by (auto simp: active_triggers_empty_iff will_quit_def DatabaseService_close_def task_stop_def
      nth_set_running split: option.splits)

lemma idle_step:
  assumes "active_triggers s = []" "\<not> activates ev"
  shows "active_triggers (step ev s) = [] \<and> fired (step ev s) = fired s"
proof (cases ev)
  case (SetupAutoBackup f c)
  with assms show ?thesis
    by (simp add: scheduleAutoBackup_invalid idle_stop_previous)
next
  case (CronTick env)
  with assms show ?thesis
    by (simp add: fired_cron_tick active_triggers_sched_of[OF sched_of_cron_tick])
next
  case WillQuit
  with assms show ?thesis by (simp add: idle_will_quit)
next
  case (BackupDatabase env)
  with assms show ?thesis
    by (simp add: fired_backup_database active_triggers_sched_of[OF sched_of_backup_database])
next
  case (BackupDatabaseEnhanced env opts)
  with assms show ?thesis
    by (simp add: fired_backup_database_enhanced
        active_triggers_sched_of[OF sched_of_backup_database_enhanced])
next
  case (RestoreDatabase env)
  with assms show ?thesis
    by (simp add: fired_restore_database active_triggers_sched_of[OF sched_of_restore_database])
next
  case (RepairDatabase env)
  with assms show ?thesis
    by (simp add: fired_repair_database active_triggers_sched_of[OF sched_of_repair_database])
qed

lemma idle_run:
  "active_triggers s = [] \<Longrightarrow> \<forall>ev \<in> set evs. \<not> activates ev \<Longrightarrow>
     active_triggers (run evs s) = [] \<and> fired (run evs s) = fired s"
  unfolding run_def
proof (induction evs arbitrary: s)
  case Nil
  then show ?case by simp
next
  case (Cons ev evs)
  from Cons.prems have st: "active_triggers (step ev s) = [] \<and> fired (step ev s) = fired s"
    by (simp add: idle_step)
  with Cons.IH[of "step ev s"] Cons.prems(2) show ?case by simp
qed

lemma valid_cronPattern:
  "f \<in> set valid_frequencies \<Longrightarrow> \<exists>p. cronPattern f = Some p"
  by (auto simp: valid_frequencies_def cronPattern_def)

lemma cronPattern_manual [simp]: "cronPattern (JStr ''manual'') = None"
  by (simp add: cronPattern_def)

lemma cron_calls_valid:
  assumes "cronPattern f = Some p"
  shows "cron_calls (scheduleAutoBackup f c s) =
           cron_calls (stop_previous s) @ [Schedule (length (tasks s)) p, Start (length (tasks s))]"
  by (simp add: scheduleAutoBackup_valid[OF assms] console_log_def task_start_def cron_schedule_def)

lemma cron_calls_stop_previous:
  "cron_calls (stop_previous s) =
     cron_calls s @ (case backupSchedule s of Some t \<Rightarrow> [Stop t] | None \<Rightarrow> [])"
  by (simp add: stop_previous_def task_stop_def split: option.splits)

section \<open>The tick of the timer\<close>

lemma fire_tasks_none:
  "\<forall>t \<in> set ts. \<not> (running (tasks s ! t) \<and> cron_match env (pattern (tasks s ! t))) \<Longrightarrow>
   fire_tasks env ts s = (Inr (), s)"
  by (induction ts) auto

lemma fire_tasks_append:
  "fire_tasks env (xs @ ys) s =
     (case fire_tasks env xs s of (Inl e, s1) \<Rightarrow> (Inl e, s1) | (Inr u, s1) \<Rightarrow> fire_tasks env ys s1)"
  by (induction xs arbitrary: s) (auto split: prod.splits sum.splits)

lemma filter_singleton:
  assumes "filter P xs = [t]"
  shows "t \<in> set xs" "P t" "\<And>x. x \<in> set xs \<Longrightarrow> P x \<Longrightarrow> x = t"
proof -
  have "set (filter P xs) = {t}" using assms by simp
  then have eq: "{x \<in> set xs. P x} = {t}" by simp
  from eq show "t \<in> set xs" by blast
  from eq show "P t" by blast
  fix x assume "x \<in> set xs" "P x"
  with eq show "x = t" by blast
qed

lemma upt_split_at: "t < n \<Longrightarrow> [0 ..< n] = [0 ..< t] @ t # [Suc t ..< n]"
  using upt_add_eq_append[of 0 t "n - t"] upt_conv_Cons[of t n] by simp

lemma cron_tick_single:
  assumes act: "active_triggers s = [t]"
    and m: "cron_match env (pattern (tasks s ! t))"
  shows "cron_tick env s = auto_backup_callback env (credentials (tasks s ! t)) s"
proof -
  let ?n = "length (tasks s)"
  have fs: "filter (\<lambda>i. running (tasks s ! i)) [0 ..< ?n] = [t]"
    using act by (simp add: active_triggers_def)
  have t: "t < ?n"
    using filter_singleton(1)[OF fs] by simp
  have rt: "running (tasks s ! t)"
    using filter_singleton(2)[OF fs] .
  have only: "x = t" if "x < ?n" "running (tasks s ! x)" for x
    using filter_singleton(3)[OF fs, of x] that by simp
  obtain r1 s1 where cb: "auto_backup_callback env (credentials (tasks s ! t)) s = (r1, s1)"
    by (cases "auto_backup_callback env (credentials (tasks s ! t)) s")
  have r1: "r1 = Inr ()"
    using auto_backup_callback_returns[of env "credentials (tasks s ! t)" s] cb by simp
  have t1: "tasks s1 = tasks s"
    using sched_of_auto_backup_callback[OF cb] by (simp add: sched_of_def)
  have "\<forall>x \<in> set [0 ..< t]. \<not> (running (tasks s ! x) \<and> cron_match env (pattern (tasks s ! x)))"
  proof
    fix x assume "x \<in> set [0 ..< t]"
    then have "x < t" by simp
    with only[of x] t show "\<not> (running (tasks s ! x) \<and> cron_match env (pattern (tasks s ! x)))"
      by auto
  qed
  then have pre: "fire_tasks env [0 ..< t] s = (Inr (), s)"
    by (rule fire_tasks_none)
  have "\<forall>x \<in> set [Suc t ..< ?n]. \<not> (running (tasks s1 ! x) \<and> cron_match env (pattern (tasks s1 ! x)))"
  proof
    fix x assume "x \<in> set [Suc t ..< ?n]"
    then have "t < x" "x < ?n" by simp_all
    with only[of x] show "\<not> (running (tasks s1 ! x) \<and> cron_match env (pattern (tasks s1 ! x)))"
      unfolding t1 by auto
  qed
  then have post: "fire_tasks env [Suc t ..< ?n] s1 = (Inr (), s1)"
    by (rule fire_tasks_none)
  have "cron_tick env s = fire_tasks env ([0 ..< t] @ t # [Suc t ..< ?n]) s"
    unfolding cron_tick_def by (subst upt_split_at[OF t]) (rule refl)
  also have "\<dots> = fire_tasks env (t # [Suc t ..< ?n]) s"
    unfolding fire_tasks_append pre by simp
  also have "\<dots> = (r1, s1)"
    unfolding fire_tasks.simps using rt m cb r1 post by simp
  finally show ?thesis
    using cb by simp
qed

lemmas sched_eval = valid_frequencies_def run_def Let_def scheduleAutoBackup_def stop_previous_def
      init_world_def cron_schedule_def task_start_def task_stop_def console_log_def
      set_running_def cronPattern_def

lemma truthy_default [simp]: "truthy (default_param c JNull) = truthy c"
  by (cases c) simp_all

lemma truthy_get_prop: "truthy c \<Longrightarrow> \<exists>v. get_prop c k = Inr v"
  by (cases c) simp_all

lemma uploads_auto_backup_callback:
  "uploads (snd (auto_backup_callback env c w)) =
     (if truthy c \<and> local_backup_succeeds env w \<and> drive_error env = None
      then uploads w @ [(path_join env (path_join env (userData env) ''backups'')
                           (auto_backup_name (now env)),
                         auto_backup_name (now env))]
      else uploads w)"
  using truthy_get_prop[of c "''client_id''"]
  by (auto simp: auto_backup_callback_def auto_backup_body_def auto_backup_upload_def
      ensureBackupDirectory_def DatabaseService_backup_def setupGoogleDrive_def
      setupGoogleDrive_body_def uploadToGoogleDrive_def local_backup_succeeds_def backup_dir_available_def
      console_log_def console_error_def Let_def
      split: option.splits sum.splits)

lemma scheduled_world_eval:
  "tasks scheduled_world = [\<lparr>pattern = ''0 2 * * *'', running = True, credentials = sample_credentials\<rparr>]"
  "backupSchedule scheduled_world = Some 0"
  "uploads scheduled_world = []"
  "dirs scheduled_world = {}"
  by (simp_all add: scheduled_world_def sched_eval sample_credentials_def)

lemma scheduled_world_active: "active_triggers scheduled_world = [0]"
  by (simp add: active_triggers_def scheduled_world_eval)

section \<open>Timestamps\<close>

lemma digit_in: "digit n \<in> set ''0123456789''"
  unfolding digit_def by (rule nth_mem) simp

lemma plain_digit: "plain (digit n)"
  using digit_in[of n] by (auto simp: plain_def line_terminator_def)

lemma plain_pad [simp]: "list_all plain (pad w n)"
  by (induction w arbitrary: n) (simp_all add: plain_digit)

lemma plain_year_text [simp]: "list_all plain (year_text y)"
  by (simp add: year_text_def plain_def line_terminator_def)

lemma plain_separators [simp]: "plain CHR ''-''" "plain CHR ''T''" "plain CHR ''Z''"
  by (simp_all add: plain_def line_terminator_def)

lemma plain_stamp: "list_all plain (stamp d)"
  by (simp add: stamp_def)

lemma replace_colons_plain: "list_all plain xs \<Longrightarrow> replace_colons xs = xs"
  by (induction xs) (simp_all add: replace_colons_def plain_def)

lemma replace_colons_append:
  "replace_colons (xs @ ys) = replace_colons xs @ replace_colons ys"
  by (simp add: replace_colons_def)

lemma replace_colons_colon:
  "replace_colons (CHR '':'' # xs) = CHR ''-'' # replace_colons xs"
  by (simp add: replace_colons_def)

lemma replace_colons_other:
  "plain c \<Longrightarrow> replace_colons (c # xs) = c # replace_colons xs"
  by (simp add: replace_colons_def plain_def)

lemma strip_dot_rest_at_dot:
  assumes "list_all plain xs" and "ys \<noteq> []" and "list_all plain ys"
  shows "strip_dot_rest (xs @ CHR ''.'' # ys) = xs"
  using assms(1)
proof (induction xs)
  case Nil
  from assms(3) have "dropWhile (\<lambda>x. \<not> line_terminator x) ys = []"
    by (simp add: list_all_iff plain_def)
  moreover from assms(2,3) have "\<not> line_terminator (hd ys)"
    by (cases ys) (simp_all add: plain_def)
  ultimately show ?case
    using assms(2) by simp
next
  case (Cons x xs)
  then show ?case
    by (simp add: plain_def)
qed

lemma iso_split:
  "toISOString d =
     (year_text (year d) @ ''-'' @ pad 2 (month d) @ ''-'' @ pad 2 (day d) @ ''T'' @
      pad 2 (hours d)) @ CHR '':'' # pad 2 (minutes d) @ CHR '':'' # pad 2 (seconds d) @
      CHR ''.'' # (pad 3 (millis d) @ ''Z'')"
  by (simp add: toISOString_def)

lemma replace_colons_pad: "replace_colons (pad w n) = pad w n"
  by (rule replace_colons_plain) simp

lemma replace_colons_year_text: "replace_colons (year_text y) = year_text y"
  by (rule replace_colons_plain) simp

lemma replace_colons_Nil: "replace_colons [] = []"
  by (simp add: replace_colons_def)

lemma replace_colons_dot: "replace_colons (CHR ''.'' # xs) = CHR ''.'' # replace_colons xs"
  by (simp add: replace_colons_def)

lemma replace_colons_iso:
  "replace_colons (toISOString d) = stamp d @ CHR ''.'' # (pad 3 (millis d) @ ''Z'')"
  by (simp add: toISOString_def stamp_def replace_colons_append replace_colons_colon
      replace_colons_other replace_colons_dot replace_colons_pad replace_colons_year_text
      replace_colons_Nil)

lemma timestamp_stamp: "timestamp d = stamp d"
  unfolding timestamp_def replace_colons_iso
  by (rule strip_dot_rest_at_dot) (simp_all add: plain_stamp)

lemma sample_names:
  "backup_name (now env_ok) = ''gym-backup-2024-01-15T10-30-45.db''"
  "auto_backup_name (now env_ok) = ''gym-auto-backup-2024-01-15T10-30-45.db''"
  "replace_colons (toISOString (now env_ok)) = ''2024-01-15T10-30-45.123Z''"
  by code_simp+

lemma sample_paths:
  "default_backup_path env_ok = ''/home/gym/.config/gym/backups/gym-backup-2024-01-15T10-30-45.db''"
  "default_auto_backup_path env_ok =
     ''/home/gym/.config/gym/backups/gym-auto-backup-2024-01-15T10-30-45.db''"
  "default_backup_path env_upload_fails = default_backup_path env_ok"
  "default_backup_path env_backend_fails = default_backup_path env_ok"
  unfolding default_backup_path_def default_auto_backup_path_def
  by (simp_all add: env_upload_fails_def env_backend_fails_def sample_names) (simp_all add: env_ok_def)

section \<open>The handlers\<close>

lemma truthy_prop_object:
  "get_prop options k = Inr u \<Longrightarrow> truthy u \<Longrightarrow> default_param options (JObj []) = options"
  by (cases options) simp_all

lemmas enhanced_defs = backup_database_enhanced_def backup_database_enhanced_body_def
  enhanced_backup_path_def enhanced_upload_def enhanced_upload_body_def
  ensureBackupDirectory_def DatabaseService_backup_def setupGoogleDrive_def
  setupGoogleDrive_body_def uploadToGoogleDrive_def console_error_def

lemma backup_database_ok:
  assumes "backup_dir_available env s" and "backup_error env = None"
  shows "fst (backup_database env s) =
           Inr (JObj [(''success'', JBool True), (''path'', JStr (default_backup_path env))])"
    and "path_join env (userData env) ''backups'' \<in> dirs (snd (backup_database env s))"
    and "JStr (default_backup_path env) \<in> files (snd (backup_database env s))"
  using assms
  by (auto simp: backup_database_def backup_database_body_def ensureBackupDirectory_def
      DatabaseService_backup_def backup_dir_available_def default_backup_path_def Let_def)

lemma auto_backup_ok:
  assumes "backup_dir_available env s" and "backup_error env = None"
  shows "path_join env (userData env) ''backups'' \<in> dirs (snd (auto_backup_callback env c s))"
    and "JStr (default_auto_backup_path env) \<in> files (snd (auto_backup_callback env c s))"
  using assms
  by (auto simp: auto_backup_callback_def auto_backup_body_def auto_backup_upload_def
      ensureBackupDirectory_def DatabaseService_backup_def setupGoogleDrive_def
      uploadToGoogleDrive_def backup_dir_available_def default_auto_backup_path_def
      console_log_def console_error_def Let_def
      split: sum.splits option.splits)

lemma backup_database_returns: "\<not> isl (fst (backup_database env s))"
  by (simp add: backup_database_def split: prod.splits sum.splits)

lemma backup_database_enhanced_returns: "\<not> isl (fst (backup_database_enhanced env options s))"
  by (simp add: backup_database_enhanced_def split: prod.splits sum.splits)

lemma restore_database_returns: "\<not> isl (fst (restore_database env s))"
  by (simp add: restore_database_def split: prod.splits sum.splits)

lemma repair_database_returns: "\<not> isl (fst (repair_database env s))"
  by (simp add: repair_database_def split: prod.splits sum.splits)

lemma setup_auto_backup_returns: "\<not> isl (fst (setup_auto_backup schedule creds s))"
  by (simp add: setup_auto_backup_def Let_def)

lemma backup_database_fails:
  "backup_failure env s = Some e \<Longrightarrow> fst (backup_database env s) = Inr (error_result e)"
  by (auto simp: backup_failure_def mkdir_failure_def backup_database_def backup_database_body_def
      ensureBackupDirectory_def DatabaseService_backup_def error_result_def Let_def
      split: option.splits if_splits)

lemma backup_database_enhanced_fails:
  "enhanced_failure env options s = Some e \<Longrightarrow>
     fst (backup_database_enhanced env options s) = Inr (error_result e)"
  by (auto simp: enhanced_failure_def backup_failure_def mkdir_failure_def enhanced_defs
      error_result_def Let_def
      split: option.splits if_splits sum.splits)

lemma restore_database_fails:
  "restore_failure env s = Some e \<Longrightarrow> fst (restore_database env s) = Inr (error_result e)"
  by (auto simp: restore_failure_def mkdir_failure_def restore_database_def
      restore_database_body_def ensureBackupDirectory_def DatabaseService_restore_def
      error_result_def Let_def
      split: option.splits if_splits sum.splits prod.splits)

lemma repair_database_backend_fails:
  assumes "repair_error env = Some e"
  shows "fst (repair_database env s) = Inr (error_result e)"
  using assms
  by (simp add: repair_database_def DatabaseService_repair_def error_result_def)

lemma remote_failure_downgraded:
  assumes "get_prop options ''customPath'' = Inr customPath"
    and "get_prop options ''uploadToDrive'' = Inr uploadToDrive" and "truthy uploadToDrive"
    and "get_prop options ''driveCredentials'' = Inr driveCredentials" and "truthy driveCredentials"
    and "truthy customPath \<or> backup_dir_available env s"
    and "is_string (chosen_backup_path env customPath)"
    and "backup_error env = None"
    and "remote_error env = Some e"
  shows "fst (backup_database_enhanced env options s) =
           Inr (JObj [(''success'', JBool True),
                      (''path'', chosen_backup_path env customPath),
                      (''driveFileId'', JNull)])"
    and "LogError ''Error setting up Google Drive:'' e
           \<in> set (console (snd (backup_database_enhanced env options s))) \<or>
         LogError ''Google Drive upload failed:'' e
           \<in> set (console (snd (backup_database_enhanced env options s)))"
  using assms truthy_get_prop[of driveCredentials "''client_id''"]
  by (auto simp: truthy_prop_object[OF assms(2,3)] enhanced_defs chosen_backup_path_def
      default_backup_path_def backup_dir_available_def remote_error_def Let_def
      split: option.splits sum.splits jsval.splits prod.splits)

lemma map_of_delete_prop: "map_of (delete_prop k kvs) k = None"
  by (induction kvs) (auto simp: delete_prop_def)

lemma keys_delete_prop: "k \<notin> fst ` set (delete_prop k kvs)"
  by (auto simp: delete_prop_def)

lemma login_success_shape:
  assumes "fst (login a username password s) = Inr result"
    and "get_prop result ''success'' = Inr (JBool True)"
  shows "\<exists>row rest. query_users a username = Inr (row # rest) \<and>
           result = JObj [(''success'', JBool True),
                          (''user'', JObj (delete_prop ''password_hash'' row))]"
  using assms
  by (auto simp: login_def login_body_def Let_def neq_Nil_conv
      split: sum.splits if_splits)

section \<open>The event loop\<close>

lemmas loop_ops = emit_def leave_def wait_for_def answer_def fresh_def

lemma base_auto_begin_sched:
  "sched_of (base (auto_begin r env c l)) = sched_of (base l)"
  by (auto simp: auto_begin_def loop_ops split: prod.splits sum.splits
      dest!: sched_of_ensureBackupDirectory)

lemma base_fresh [simp]: "base (fresh l) = base l"
  by (simp add: fresh_def)

lemma loop_fire_none:
  "\<forall>t \<in> set ts. \<not> (running (tasks (base l) ! t) \<and> cron_match env (pattern (tasks (base l) ! t)))
   \<Longrightarrow> loop_fire env ts l = l"
  by (induction ts) auto

lemma loop_fire_append:
  "loop_fire env (xs @ ys) l = loop_fire env ys (loop_fire env xs l)"
  by (induction xs arbitrary: l) simp_all

lemma loop_tick_single:
  assumes act: "active_triggers (base l) = [t]"
    and m: "cron_match env (pattern (tasks (base l) ! t))"
  shows "loop_step (Tick env) l =
           auto_begin (next_run l) env (credentials (tasks (base l) ! t)) (fresh l)"
proof -
  let ?n = "length (tasks (base l))"
  let ?l1 = "auto_begin (next_run l) env (credentials (tasks (base l) ! t)) (fresh l)"
  have fs: "filter (\<lambda>i. running (tasks (base l) ! i)) [0 ..< ?n] = [t]"
    using act by (simp add: active_triggers_def)
  have t: "t < ?n"
    using filter_singleton(1)[OF fs] by simp
  have rt: "running (tasks (base l) ! t)"
    using filter_singleton(2)[OF fs] .
  have only: "x = t" if "x < ?n" "running (tasks (base l) ! x)" for x
    using filter_singleton(3)[OF fs, of x] that by simp
  have t1: "tasks (base ?l1) = tasks (base l)"
    using base_auto_begin_sched[of "next_run l" env "credentials (tasks (base l) ! t)" "fresh l"]
    by (simp add: sched_of_def)
  have "\<forall>x \<in> set [0 ..< t]. \<not> (running (tasks (base l) ! x) \<and> cron_match env (pattern (tasks (base l) ! x)))"
  proof
    fix x assume "x \<in> set [0 ..< t]"
    then have "x < t" by simp
    with only[of x] t show "\<not> (running (tasks (base l) ! x) \<and> cron_match env (pattern (tasks (base l) ! x)))"
      by auto
  qed
  then have pre: "loop_fire env [0 ..< t] l = l"
    by (rule loop_fire_none)
  have "\<forall>x \<in> set [Suc t ..< ?n]. \<not> (running (tasks (base ?l1) ! x) \<and> cron_match env (pattern (tasks (base ?l1) ! x)))"
  proof
    fix x assume "x \<in> set [Suc t ..< ?n]"
    then have "t < x" "x < ?n" by simp_all
    with only[of x] show "\<not> (running (tasks (base ?l1) ! x) \<and> cron_match env (pattern (tasks (base ?l1) ! x)))"
      unfolding t1 by auto
  qed
  then have post: "loop_fire env [Suc t ..< ?n] ?l1 = ?l1"
    by (rule loop_fire_none)
  have "loop_step (Tick env) l = loop_fire env ([0 ..< t] @ t # [Suc t ..< ?n]) l"
    unfolding loop_step.simps by (subst upt_split_at[OF t]) (rule refl)
  also have "\<dots> = loop_fire env (t # [Suc t ..< ?n]) l"
    unfolding loop_fire_append pre ..
  also have "\<dots> = ?l1"
    unfolding loop_fire.simps using rt m post by simp
  finally show ?thesis .
qed

lemma trace_backup_begin:
  "backup_dir_available env (base l) \<Longrightarrow>
     trace (backup_begin r env (fresh l)) = trace l @ [Begin r OpBackup]"
  by (auto simp: backup_begin_def ensureBackupDirectory_def backup_dir_available_def loop_ops Let_def)

lemma trace_auto_begin:
  "backup_dir_available env (base l) \<Longrightarrow>
     trace (auto_begin r env c (fresh l)) = trace l @ [Begin r OpBackup]"
  by (auto simp: auto_begin_def ensureBackupDirectory_def backup_dir_available_def loop_ops
      console_log_def Let_def)

lemma trace_repair_begin:
  "trace (repair_begin r env (fresh l)) = trace l @ [Begin r OpRepair]"
  by (simp add: repair_begin_def loop_ops)

lemma trace_dialog_settled:
  "map_of (pending l) r = Some AwaitDialog \<Longrightarrow> open_dialog env = Inr (False, p # ps) \<Longrightarrow>
     trace (loop_step (Settle r env) l) = trace l @ [Begin r OpRestore]"
  by (simp add: restore_dialog_settled_def loop_ops)

lemma map_of_leave [simp]: "map_of (filter (\<lambda>p. fst p \<noteq> r) ps) r = None"
  by (induction ps) auto

lemma alone_backup:
  "base (loop_run [Request ReqBackup env, Settle (next_run l) env] l) =
     snd (backup_database env (base l))"
  by (auto simp: loop_run_def backup_begin_def backup_settled_def backup_database_def
      backup_database_body_def loop_ops Let_def
      split: prod.splits sum.splits)

lemma alone_repair:
  "base (loop_run [Request ReqRepair env, Settle (next_run l) env] l) =
     snd (repair_database env (base l))"
  by (auto simp: loop_run_def repair_begin_def repair_settled_def repair_database_def loop_ops
      split: prod.splits sum.splits)

lemma alone_restore:
  "base (loop_run [Request ReqRestore env, Settle (next_run l) env, Settle (next_run l) env] l) =
     snd (restore_database env (base l))"
  by (auto simp: loop_run_def restore_begin_def restore_dialog_settled_def restore_settled_def
      restore_database_def restore_database_body_def loop_ops Let_def
      split: prod.splits sum.splits)

lemma alone_auto:
  "base (loop_step (Settle r env) (auto_begin r env c (fresh l))) =
     snd (auto_backup_callback env c (base l))"
  by (auto simp: auto_begin_def auto_settled_def auto_backup_callback_def auto_backup_body_def
      loop_ops Let_def
      split: prod.splits sum.splits)

lemma alone_tick:
  assumes "active_triggers (base l) = [t]" and "cron_match env (pattern (tasks (base l) ! t))"
  shows "base (loop_run [Tick env, Settle (next_run l) env] l) = snd (cron_tick env (base l))"
proof -
  have "loop_run [Tick env, Settle (next_run l) env] l =
          loop_step (Settle (next_run l) env) (loop_step (Tick env) l)"
    by (simp add: loop_run_def del: loop_step.simps)
  then show ?thesis
    unfolding loop_tick_single[OF assms] cron_tick_single[OF assms]
    by (simp only: alone_auto)
qed

lemma restore_in_flight_eval:
  "pending restore_in_flight = [(0, AwaitRestore ''/home/gym/old.db'')]"
  "trace restore_in_flight = [Begin 0 OpRestore]"
  "next_run restore_in_flight = 1"
  "tasks (base restore_in_flight) = tasks scheduled_world"
  "dirs (base restore_in_flight) = {''/home/gym/.config/gym/backups''}"
  by code_simp+

lemma second_restore_waiting_eval:
  "map_of (pending second_restore_waiting) 1 = Some AwaitDialog"
  "trace second_restore_waiting = [Begin 0 OpRestore]"
  by code_simp+

section \<open>Enhanced backup: a failed upload\<close>

text \<open>
  Claim C1. When the local part of an enhanced backup succeeds and the upload throws,
  with \<^verbatim>\<open>uploadToDrive\<close> set and credentials given, the handler still answers
  \<^verbatim>\<open>success: true\<close> with the path of the backup and \<^verbatim>\<open>driveFileId: null\<close>, and the
  backup file exists at that path. The existence of the file rests on the contract of
  the storage backend.
\<close>

theorem upload_failure_keeps_local_backup:
  assumes "get_prop options ''customPath'' = Inr customPath"
    and "get_prop options ''uploadToDrive'' = Inr uploadToDrive" and "truthy uploadToDrive"
    and "get_prop options ''driveCredentials'' = Inr driveCredentials" and "truthy driveCredentials"
    and "truthy customPath \<or> backup_dir_available env s"
    and "backup_error env = None"
    and "upload_outcome env = Inl e"
  shows "fst (backup_database_enhanced env options s) =
           Inr (JObj [(''success'', JBool True),
                      (''path'', chosen_backup_path env customPath),
                      (''driveFileId'', JNull)]) \<and>
         chosen_backup_path env customPath \<in> files (snd (backup_database_enhanced env options s))"
  using assms truthy_get_prop[of driveCredentials "''client_id''"]
  by (auto simp: truthy_prop_object[OF assms(2,3)] enhanced_defs chosen_backup_path_def
      default_backup_path_def backup_dir_available_def Let_def
      split: option.splits sum.splits jsval.splits prod.splits)

theorem upload_failure_keeps_local_backup_witness:
  "get_prop sample_options ''customPath'' = Inr JUndefined \<and>
   get_prop sample_options ''uploadToDrive'' = Inr (JBool True) \<and> truthy (JBool True) \<and>
   get_prop sample_options ''driveCredentials'' = Inr sample_credentials \<and>
   truthy sample_credentials \<and>
   (truthy JUndefined \<or> backup_dir_available env_upload_fails init_world) \<and>
   backup_error env_upload_fails = None \<and>
   upload_outcome env_upload_fails = Inl (Error ''network unreachable'') \<and>
   fst (backup_database_enhanced env_upload_fails sample_options init_world) =
     Inr (JObj [(''success'', JBool True),
                (''path'', JStr ''/home/gym/.config/gym/backups/gym-backup-2024-01-15T10-30-45.db''),
                (''driveFileId'', JNull)]) \<and>
   JStr ''/home/gym/.config/gym/backups/gym-backup-2024-01-15T10-30-45.db''
     \<in> files (snd (backup_database_enhanced env_upload_fails sample_options init_world))"
proof -
  have h1: "get_prop sample_options ''customPath'' = Inr JUndefined"
    and h2: "get_prop sample_options ''uploadToDrive'' = Inr (JBool True)"
    and h4: "get_prop sample_options ''driveCredentials'' = Inr sample_credentials"
    by (simp_all add: sample_options_def)
  have h3: "truthy (JBool True)" and h5: "truthy sample_credentials"
    by (simp_all add: sample_credentials_def)
  have h6: "truthy JUndefined \<or> backup_dir_available env_upload_fails init_world"
    by (simp add: backup_dir_available_def env_upload_fails_def env_ok_def)
  have h7: "backup_error env_upload_fails = None"
    and h8: "upload_outcome env_upload_fails = Inl (Error ''network unreachable'')"
    by (simp_all add: env_upload_fails_def env_ok_def)
  have p: "chosen_backup_path env_upload_fails JUndefined =
             JStr ''/home/gym/.config/gym/backups/gym-backup-2024-01-15T10-30-45.db''"
    by (simp add: chosen_backup_path_def sample_paths)
  note r = upload_failure_keeps_local_backup[OF h1 h2 h3 h4 h5 h6 h7 h8, unfolded p]
  from h1 h2 h3 h4 h5 h6 h7 h8 r show ?thesis
    by blast
qed

section \<open>The recurring schedule\<close>

text \<open>
  Claim C2. For the frequencies daily, weekly and monthly, two calls of
  \<open>scheduleAutoBackup\<close> in succession, from any state the process can reach, leave
  exactly one active trigger: the second call stops the trigger of the first. In every
  reachable state at most one trigger is active, and a tick of the timer therefore
  starts at most one scheduled backup.
\<close>

theorem schedule_twice_one_trigger:
  assumes "f1 \<in> set valid_frequencies" and "f2 \<in> set valid_frequencies"
  shows "let s0 = run evs init_world;
             s1 = scheduleAutoBackup f1 c1 s0;
             s2 = scheduleAutoBackup f2 c2 s1
         in length (active_triggers s0) \<le> 1 \<and>
            active_triggers s1 = [length (tasks s0)] \<and>
            active_triggers s2 = [length (tasks s1)] \<and>
            backupSchedule s2 = Some (length (tasks s1)) \<and>
            Stop (length (tasks s0)) \<in> set (cron_calls s2) \<and>
            fired (snd (cron_tick env s2)) \<le> fired s2 + 1"
proof -
  define s0 where "s0 = run evs init_world"
  define s1 where "s1 = scheduleAutoBackup f1 c1 s0"
  define s2 where "s2 = scheduleAutoBackup f2 c2 s1"
  obtain p1 p2 where p1: "cronPattern f1 = Some p1" and p2: "cronPattern f2 = Some p2"
    using assms valid_cronPattern by blast
  have i0: "sched_inv s0"
    unfolding s0_def by (rule sched_inv_run[OF sched_inv_init])
  then have i1: "sched_inv s1"
    unfolding s1_def by (rule sched_inv_scheduleAutoBackup)
  have a0: "length (active_triggers s0) \<le> 1"
    by (rule sched_inv_at_most_one[OF i0])
  have a1: "active_triggers s1 = [length (tasks s0)]"
    unfolding s1_def by (rule active_triggers_valid[OF p1 i0])
  have a2: "active_triggers s2 = [length (tasks s1)]"
    unfolding s2_def by (rule active_triggers_valid[OF p2 i1])
  have b1: "backupSchedule s1 = Some (length (tasks s0))"
    unfolding s1_def by (rule scheduleAutoBackup_valid_tasks(2)[OF p1])
  have b2: "backupSchedule s2 = Some (length (tasks s1))"
    unfolding s2_def by (rule scheduleAutoBackup_valid_tasks(2)[OF p2])
  have st: "Stop (length (tasks s0)) \<in> set (cron_calls s2)"
    unfolding s2_def by (simp add: cron_calls_valid[OF p2] cron_calls_stop_previous b1)
  have "length (filter (\<lambda>t. cron_match env (pattern (tasks s2 ! t))) (active_triggers s2)) \<le> 1"
    by (simp add: a2)
  then have fr: "fired (snd (cron_tick env s2)) \<le> fired s2 + 1"
    by (simp add: fired_cron_tick)
  from a0 a1 a2 b2 st fr show ?thesis
    by (simp add: s0_def s1_def s2_def Let_def)
qed

theorem schedule_twice_one_trigger_witness:
  "JStr ''daily'' \<in> set valid_frequencies \<and> JStr ''weekly'' \<in> set valid_frequencies \<and>
   active_triggers (scheduleAutoBackup (JStr ''weekly'') JNull
      (scheduleAutoBackup (JStr ''daily'') JNull init_world)) = [1]"
  using schedule_twice_one_trigger[of "JStr ''daily''" "JStr ''weekly''" "[]" JNull JNull env_ok]
  by (simp add: valid_frequencies_def run_def Let_def scheduleAutoBackup_def stop_previous_def
      init_world_def cron_schedule_def task_start_def task_stop_def console_log_def
      set_running_def cronPattern_def)

text \<open>
  Claim C3. After a schedule with a frequency of daily, weekly or monthly, a call of
  \<open>scheduleAutoBackup\<close> with the frequency manual stops the trigger of that schedule
  (one \<^verbatim>\<open>stop\<close> on its handle), resets \<^verbatim>\<open>backupSchedule\<close> and leaves no trigger active.
  As long as no later request configures an activating frequency, no trigger becomes
  active and no scheduled backup is started, whatever else happens.
\<close>

theorem manual_deactivates:
  assumes "f \<in> set valid_frequencies" and "\<forall>ev \<in> set later. \<not> activates ev"
  shows "let s0 = run evs init_world;
             s1 = scheduleAutoBackup f c s0;
             s2 = scheduleAutoBackup (JStr ''manual'') c' s1;
             s3 = run later s2
         in active_triggers s1 = [length (tasks s0)] \<and>
            cron_calls s2 = cron_calls s1 @ [Stop (length (tasks s0))] \<and>
            backupSchedule s2 = None \<and>
            active_triggers s2 = [] \<and>
            active_triggers s3 = [] \<and>
            fired s3 = fired s2"
proof -
  define s0 where "s0 = run evs init_world"
  define s1 where "s1 = scheduleAutoBackup f c s0"
  define s2 where "s2 = scheduleAutoBackup (JStr ''manual'') c' s1"
  obtain p where p: "cronPattern f = Some p"
    using assms(1) valid_cronPattern by blast
  have i0: "sched_inv s0"
    unfolding s0_def by (rule sched_inv_run[OF sched_inv_init])
  then have i1: "sched_inv s1"
    unfolding s1_def by (rule sched_inv_scheduleAutoBackup)
  have a1: "active_triggers s1 = [length (tasks s0)]"
    unfolding s1_def by (rule active_triggers_valid[OF p i0])
  have b1: "backupSchedule s1 = Some (length (tasks s0))"
    unfolding s1_def by (rule scheduleAutoBackup_valid_tasks(2)[OF p])
  have s2: "s2 = stop_previous s1"
    unfolding s2_def by (simp add: scheduleAutoBackup_invalid)
  have c2: "cron_calls s2 = cron_calls s1 @ [Stop (length (tasks s0))]"
    by (simp add: s2 cron_calls_stop_previous b1)
  have b2: "backupSchedule s2 = None"
    by (simp add: s2)
  have a2: "active_triggers s2 = []"
    unfolding s2 active_triggers_empty_iff
    using stop_previous_none_running[OF i1] by simp
  note a3 = idle_run[OF a2 assms(2)]
  from a1 c2 b2 a2 a3 show ?thesis
    unfolding Let_def s0_def[symmetric] s1_def[symmetric] s2_def[symmetric] by blast
qed

theorem manual_deactivates_witness:
  "JStr ''weekly'' \<in> set valid_frequencies \<and>
   \<not> activates (CronTick env_ok) \<and> \<not> activates (BackupDatabase env_ok) \<and>
   active_triggers (scheduleAutoBackup (JStr ''manual'') JNull
      (scheduleAutoBackup (JStr ''weekly'') JNull init_world)) = [] \<and>
   fired (run [CronTick env_ok, BackupDatabase env_ok, CronTick env_ok]
      (scheduleAutoBackup (JStr ''manual'') JNull
        (scheduleAutoBackup (JStr ''weekly'') JNull init_world))) = 0"
proof -
  have q: "\<forall>ev \<in> set [CronTick env_ok, BackupDatabase env_ok, CronTick env_ok]. \<not> activates ev"
    by simp
  have v: "JStr ''weekly'' \<in> set valid_frequencies"
    by (simp add: valid_frequencies_def)
  have f0: "fired (scheduleAutoBackup (JStr ''manual'') JNull
        (scheduleAutoBackup (JStr ''weekly'') JNull init_world)) = 0"
    by (simp add: sched_eval fired_def)
  from manual_deactivates[OF v q, of "[]" JNull JNull] v f0 show ?thesis
    by (simp add: run_def Let_def)
qed

text \<open>
  Claim C4. For the frequencies daily, weekly and monthly, \<open>scheduleAutoBackup\<close> maps
  the frequency to a fixed cron expression at 02:00 (minute 0, hour 2): daily to
  \<^verbatim>\<open>0 2 * * *\<close>, weekly to \<^verbatim>\<open>0 2 * * 0\<close> (Sundays) and monthly to \<^verbatim>\<open>0 2 1 * *\<close> (the first
  of the month), and starts a trigger with that expression, bound to the backup
  callback and the credentials given. A run of the callback that has made its local
  backup, with a Drive client that can be built, sends the backup to Google Drive
  exactly when the credentials are present; without credentials no run uploads.
\<close>

theorem schedule_starts_trigger:
  assumes "f \<in> set valid_frequencies"
  shows "let s1 = scheduleAutoBackup f c s; t = length (tasks s)
         in cronPattern (JStr ''daily'') = Some ''0 2 * * *'' \<and>
            cronPattern (JStr ''weekly'') = Some ''0 2 * * 0'' \<and>
            cronPattern (JStr ''monthly'') = Some ''0 2 1 * *'' \<and>
            cronPattern f = Some (pattern (tasks s1 ! t)) \<and>
            running (tasks s1 ! t) \<and>
            credentials (tasks s1 ! t) = default_param c JNull \<and>
            backupSchedule s1 = Some t \<and>
            cron_calls s1 = cron_calls (stop_previous s) @ [Schedule t (pattern (tasks s1 ! t)), Start t] \<and>
            (local_backup_succeeds env w \<and> drive_error env = None \<longrightarrow>
               uploads (snd (auto_backup_callback env (credentials (tasks s1 ! t)) w)) =
                 (if truthy c
                  then uploads w @ [(default_auto_backup_path env, auto_backup_name (now env))]
                  else uploads w)) \<and>
            (\<not> truthy c \<longrightarrow>
               uploads (snd (auto_backup_callback env (credentials (tasks s1 ! t)) w)) = uploads w)"
proof -
  obtain p where p: "cronPattern f = Some p"
    using assms valid_cronPattern by blast
  define s1 where "s1 = scheduleAutoBackup f c s"
  have task: "tasks s1 ! length (tasks s) =
                \<lparr>pattern = p, running = True, credentials = default_param c JNull\<rparr>"
    unfolding s1_def by (simp add: scheduleAutoBackup_valid_tasks(1)[OF p] snoc_nth_last)
  have b: "backupSchedule s1 = Some (length (tasks s))"
    unfolding s1_def by (rule scheduleAutoBackup_valid_tasks(2)[OF p])
  have cc: "cron_calls s1 = cron_calls (stop_previous s) @ [Schedule (length (tasks s)) p, Start (length (tasks s))]"
    unfolding s1_def by (rule cron_calls_valid[OF p])
  have maps: "cronPattern (JStr ''daily'') = Some ''0 2 * * *''"
    "cronPattern (JStr ''weekly'') = Some ''0 2 * * 0''"
    "cronPattern (JStr ''monthly'') = Some ''0 2 1 * *''"
    by (simp_all add: cronPattern_def)
  show ?thesis
    unfolding Let_def s1_def[symmetric]
    by (simp add: task b cc maps p uploads_auto_backup_callback default_auto_backup_path_def)
qed

theorem schedule_starts_trigger_witness:
  "JStr ''weekly'' \<in> set valid_frequencies \<and>
   local_backup_succeeds env_ok init_world \<and> drive_error env_ok = None \<and>
   truthy sample_credentials \<and> \<not> truthy JNull \<and>
   pattern (tasks (scheduleAutoBackup (JStr ''weekly'') sample_credentials init_world) ! 0)
     = ''0 2 * * 0'' \<and>
   running (tasks (scheduleAutoBackup (JStr ''weekly'') sample_credentials init_world) ! 0) \<and>
   credentials (tasks (scheduleAutoBackup (JStr ''weekly'') sample_credentials init_world) ! 0)
     = sample_credentials \<and>
   uploads (snd (auto_backup_callback env_ok
      (credentials (tasks (scheduleAutoBackup (JStr ''weekly'') sample_credentials init_world) ! 0))
      init_world)) =
     [(''/home/gym/.config/gym/backups/gym-auto-backup-2024-01-15T10-30-45.db'',
       ''gym-auto-backup-2024-01-15T10-30-45.db'')] \<and>
   uploads (snd (auto_backup_callback env_ok
      (credentials (tasks (scheduleAutoBackup (JStr ''weekly'') JNull init_world) ! 0))
      init_world)) = []"
proof -
  let ?s1 = "scheduleAutoBackup (JStr ''weekly'') sample_credentials init_world"
  let ?s2 = "scheduleAutoBackup (JStr ''weekly'') JNull init_world"
  have v: "JStr ''weekly'' \<in> set valid_frequencies"
    by (simp add: valid_frequencies_def)
  have len: "length (tasks init_world) = 0" and up: "uploads init_world = []"
    by (simp_all add: init_world_def)
  have c: "default_param sample_credentials JNull = sample_credentials" "truthy sample_credentials"
    by (simp_all add: sample_credentials_def)
  have nc: "\<not> truthy JNull"
    by simp
  have ok: "local_backup_succeeds env_ok init_world \<and> drive_error env_ok = None"
    by (simp add: local_backup_succeeds_def backup_dir_available_def env_ok_def)
  note r = schedule_starts_trigger[OF v, of sample_credentials init_world env_ok init_world,
      unfolded Let_def]
  note q = schedule_starts_trigger[OF v, of JNull init_world env_ok init_world,
      unfolded Let_def]
  from r have "cronPattern (JStr ''weekly'') = Some (pattern (tasks ?s1 ! length (tasks init_world)))"
    by blast
  then have r1: "pattern (tasks ?s1 ! 0) = ''0 2 * * 0''"
    by (simp add: cronPattern_def len)
  from r have "running (tasks ?s1 ! length (tasks init_world))"
    by blast
  then have r2: "running (tasks ?s1 ! 0)"
    by (simp add: len)
  from r have "credentials (tasks ?s1 ! length (tasks init_world)) = default_param sample_credentials JNull"
    by blast
  then have r3: "credentials (tasks ?s1 ! 0) = sample_credentials"
    by (simp add: len c)
  from r ok have "uploads (snd (auto_backup_callback env_ok
        (credentials (tasks ?s1 ! length (tasks init_world))) init_world)) =
     (if truthy sample_credentials
      then uploads init_world @ [(default_auto_backup_path env_ok, auto_backup_name (now env_ok))]
      else uploads init_world)"
    by blast
  then have r4: "uploads (snd (auto_backup_callback env_ok (credentials (tasks ?s1 ! 0)) init_world)) =
     [(''/home/gym/.config/gym/backups/gym-auto-backup-2024-01-15T10-30-45.db'',
       ''gym-auto-backup-2024-01-15T10-30-45.db'')]"
    by (simp add: len c up sample_names sample_paths)
  from q nc have "uploads (snd (auto_backup_callback env_ok
        (credentials (tasks ?s2 ! length (tasks init_world))) init_world)) = uploads init_world"
    by blast
  then have r5: "uploads (snd (auto_backup_callback env_ok (credentials (tasks ?s2 ! 0)) init_world)) = []"
    by (simp add: len up)
  from v ok c(2) nc r1 r2 r3 r4 r5 show ?thesis
    by blast
qed

text \<open>
  Claim C5 as stated fails: the frequency \<^verbatim>\<open>hourly\<close> is not rejected, the handler
  answers \<^verbatim>\<open>{success: true}\<close>.
\<close>

theorem invalid_frequency_accepted:
  "JStr ''hourly'' \<notin> set (JStr ''manual'' # valid_frequencies) \<and>
   fst (setup_auto_backup (JStr ''hourly'') JNull init_world) =
     Inr (JObj [(''success'', JBool True)]) \<and>
   \<not> is_error_result (fst (setup_auto_backup (JStr ''hourly'') JNull init_world))"
  by (simp add: is_error_result_def setup_auto_backup_def valid_frequencies_def Let_def)

text \<open>
  Claim C5, amended. A call of \<^verbatim>\<open>setup-auto-backup\<close> with a frequency outside manual,
  daily, weekly and monthly is accepted silently: the handler answers
  \<^verbatim>\<open>{success: true}\<close>, and the only effect is that of the first statement of
  \<open>scheduleAutoBackup\<close>, which stops the trigger that was active; no trigger is started.
\<close>

theorem invalid_frequency_ignored:
  assumes "schedule \<notin> set (JStr ''manual'' # valid_frequencies)"
  shows "setup_auto_backup schedule creds s = (Inr (JObj [(''success'', JBool True)]), stop_previous s)"
proof -
  from assms have "cronPattern schedule = None"
    by (simp add: cronPattern_def valid_frequencies_def)
  then have "scheduleAutoBackup schedule creds s = stop_previous s"
    by (rule scheduleAutoBackup_invalid)
  then show ?thesis
    by (simp add: setup_auto_backup_def Let_def scheduleAutoBackup_default)
qed

theorem invalid_frequency_ignored_witness:
  "JStr ''hourly'' \<notin> set (JStr ''manual'' # valid_frequencies) \<and>
   setup_auto_backup (JStr ''hourly'') JNull init_world =
     (Inr (JObj [(''success'', JBool True)]), init_world)"
  using invalid_frequency_ignored[of "JStr ''hourly''" JNull init_world]
  by (simp add: valid_frequencies_def stop_previous_def init_world_def)

text \<open>
  Claim C6. When the scheduled callback throws during a tick (its local backup or its
  upload failed), the error is caught and logged with \<^verbatim>\<open>console.error\<close> and the tick
  ends normally; the tasks and \<^verbatim>\<open>backupSchedule\<close> are as before, so the trigger is still
  active, and the next tick that matches starts the callback again.
\<close>

theorem scheduled_failure_contained:
  assumes "active_triggers s = [t]"
    and "cron_match env (pattern (tasks s ! t))"
    and "fst (auto_backup_body env (credentials (tasks s ! t)) s) = Inl e"
    and "cron_match env' (pattern (tasks s ! t))"
  shows "let s' = snd (cron_tick env s)
         in cron_tick env s =
              (Inr (), console_error ''Automatic backup failed:'' e
                         (snd (auto_backup_body env (credentials (tasks s ! t)) s))) \<and>
            backupSchedule s' = backupSchedule s \<and>
            tasks s' = tasks s \<and>
            active_triggers s' = [t] \<and>
            fst (cron_tick env' s') = Inr () \<and>
            fired (snd (cron_tick env' s')) = fired s' + 1"
proof -
  define s' where "s' = snd (cron_tick env s)"
  have tick: "cron_tick env s =
      (Inr (), console_error ''Automatic backup failed:'' e
                 (snd (auto_backup_body env (credentials (tasks s ! t)) s)))"
    using assms(3)
    by (cases "auto_backup_body env (credentials (tasks s ! t)) s")
       (simp add: cron_tick_single[OF assms(1,2)] auto_backup_callback_def)
  have so: "sched_of s' = sched_of s"
    unfolding s'_def by (rule sched_of_cron_tick)
  then have same: "backupSchedule s' = backupSchedule s" "tasks s' = tasks s"
    by (simp_all add: sched_of_def)
  have act: "active_triggers s' = [t]"
    using active_triggers_sched_of[OF so] assms(1) by simp
  have nxt: "fired (snd (cron_tick env' s')) = fired s' + 1"
    by (simp add: fired_cron_tick act same assms(4))
  from tick same act nxt cron_tick_returns[of env' s'] show ?thesis
    unfolding Let_def s'_def[symmetric] by blast
qed

theorem scheduled_failure_contained_witness:
  "active_triggers scheduled_world = [0] \<and>
   cron_match env_backend_fails (pattern (tasks scheduled_world ! 0)) \<and>
   fst (auto_backup_body env_backend_fails (credentials (tasks scheduled_world ! 0)) scheduled_world)
     = Inl (Error ''disk full'') \<and>
   cron_match env_ok (pattern (tasks scheduled_world ! 0)) \<and>
   fst (cron_tick env_backend_fails scheduled_world) = Inr () \<and>
   active_triggers (snd (cron_tick env_backend_fails scheduled_world)) = [0] \<and>
   fired (snd (cron_tick env_ok (snd (cron_tick env_backend_fails scheduled_world))))
     = fired (snd (cron_tick env_backend_fails scheduled_world)) + 1"
proof -
  have h2: "cron_match env_backend_fails (pattern (tasks scheduled_world ! 0))"
    by (simp add: env_backend_fails_def env_ok_def)
  have h3: "fst (auto_backup_body env_backend_fails (credentials (tasks scheduled_world ! 0))
               scheduled_world) = Inl (Error ''disk full'')"
    by (simp add: auto_backup_body_def ensureBackupDirectory_def DatabaseService_backup_def
        console_log_def Let_def env_backend_fails_def env_ok_def scheduled_world_eval)
  have h4: "cron_match env_ok (pattern (tasks scheduled_world ! 0))"
    by (simp add: env_ok_def)
  note r = scheduled_failure_contained[OF scheduled_world_active h2 h3 h4, unfolded Let_def]
  from r have r1: "fst (cron_tick env_backend_fails scheduled_world) = Inr ()"
    by (metis fst_conv)
  from r have r2: "active_triggers (snd (cron_tick env_backend_fails scheduled_world)) = [0]"
    by blast
  from r have r3: "fired (snd (cron_tick env_ok (snd (cron_tick env_backend_fails scheduled_world))))
     = fired (snd (cron_tick env_backend_fails scheduled_world)) + 1"
    by blast
  from scheduled_world_active h2 h3 h4 r1 r2 r3 show ?thesis
    by blast
qed

section \<open>File names and the backup directory\<close>

text \<open>
  Claim C7 as stated fails: the timestamp is not the complete ISO-8601 text with only
  its colons replaced. The second replacement removes the fraction of the second and
  the \<^verbatim>\<open>Z\<close>.
\<close>

theorem timestamp_is_not_full_iso:
  "replace_colons (toISOString (now env_ok)) = ''2024-01-15T10-30-45.123Z'' \<and>
   backup_name (now env_ok) = ''gym-backup-2024-01-15T10-30-45.db'' \<and>
   backup_name (now env_ok) \<noteq> ''gym-backup-'' @ replace_colons (toISOString (now env_ok)) @ ''.db''"
  by (simp add: sample_names)

text \<open>
  Claim C7, amended. A backup made by the handler \<^verbatim>\<open>backup-database\<close> is named
  \<^verbatim>\<open>gym-backup-<timestamp>.db\<close> and a scheduled backup \<^verbatim>\<open>gym-auto-backup-<timestamp>.db\<close>,
  where the timestamp is the ISO-8601 text of the current time with its colons
  replaced by \<^verbatim>\<open>-\<close> and everything from the first dot on removed, that is
  \<^verbatim>\<open>YYYY-MM-DDTHH-mm-ss\<close>. Both are written to the subdirectory \<^verbatim>\<open>backups\<close> of the
  application data directory, which exists after the backup.
\<close>

theorem backup_file_names:
  assumes "backup_dir_available env s" and "backup_error env = None"
  shows "backup_name (now env) = ''gym-backup-'' @ stamp (now env) @ ''.db'' \<and>
         auto_backup_name (now env) = ''gym-auto-backup-'' @ stamp (now env) @ ''.db'' \<and>
         fst (backup_database env s) =
           Inr (JObj [(''success'', JBool True), (''path'', JStr (default_backup_path env))]) \<and>
         JStr (default_backup_path env) \<in> files (snd (backup_database env s)) \<and>
         path_join env (userData env) ''backups'' \<in> dirs (snd (backup_database env s)) \<and>
         JStr (default_auto_backup_path env) \<in> files (snd (auto_backup_callback env c s)) \<and>
         path_join env (userData env) ''backups'' \<in> dirs (snd (auto_backup_callback env c s))"
  using backup_database_ok[OF assms] auto_backup_ok[OF assms, of c]
  by (simp add: backup_name_def auto_backup_name_def timestamp_stamp)

theorem backup_file_names_witness:
  "backup_dir_available env_ok init_world \<and> backup_error env_ok = None \<and>
   backup_name (now env_ok) = ''gym-backup-'' @ stamp (now env_ok) @ ''.db'' \<and>
   stamp (now env_ok) = ''2024-01-15T10-30-45'' \<and>
   fst (backup_database env_ok init_world) =
     Inr (JObj [(''success'', JBool True),
                (''path'', JStr ''/home/gym/.config/gym/backups/gym-backup-2024-01-15T10-30-45.db'')]) \<and>
   ''/home/gym/.config/gym/backups'' \<in> dirs (snd (backup_database env_ok init_world))"
proof -
  have h1: "backup_dir_available env_ok init_world" and h2: "backup_error env_ok = None"
    by (simp_all add: backup_dir_available_def env_ok_def)
  have d: "path_join env_ok (userData env_ok) ''backups'' = ''/home/gym/.config/gym/backups''"
    by (simp add: env_ok_def)
  note r = backup_file_names[OF h1 h2, unfolded sample_paths d]
  from r have n: "backup_name (now env_ok) = ''gym-backup-'' @ stamp (now env_ok) @ ''.db''"
    by blast
  then have st: "stamp (now env_ok) = ''2024-01-15T10-30-45''"
    by (simp add: sample_names)
  from h1 h2 r n st show ?thesis
    by blast
qed

section \<open>Failures at the boundary of the handlers\<close>

text \<open>
  Claim C8. Whatever local step fails in \<^verbatim>\<open>backup-database\<close>, \<^verbatim>\<open>backup-database-enhanced\<close>,
  \<^verbatim>\<open>restore-database\<close> or \<^verbatim>\<open>repair-database\<close> (the creation of the backup directory, the
  storage backend, the file picker, the read of the options), the caller receives the
  result \<^verbatim>\<open>{ error: message }\<close> with the message of that failure; none of these handlers,
  nor \<^verbatim>\<open>setup-auto-backup\<close>, ever rejects. A failure of the remote side of an enhanced
  backup is logged and leaves \<^verbatim>\<open>driveFileId\<close> at \<^verbatim>\<open>null\<close> in a successful result.
\<close>

theorem failures_stay_inside_the_facade:
  assumes "backup_failure env1 s1 = Some e1"
    and "enhanced_failure env2 options2 s2 = Some e2"
    and "restore_failure env3 s3 = Some e3"
    and "repair_error env4 = Some e4"
    and "get_prop options' ''customPath'' = Inr customPath'"
    and "get_prop options' ''uploadToDrive'' = Inr uploadToDrive" and "truthy uploadToDrive"
    and "get_prop options' ''driveCredentials'' = Inr driveCredentials"
    and "truthy driveCredentials"
    and "truthy customPath' \<or> backup_dir_available env' s'"
    and "is_string (chosen_backup_path env' customPath')"
    and "backup_error env' = None"
    and "remote_error env' = Some e'"
  shows "fst (backup_database env1 s1) = Inr (error_result e1) \<and>
         fst (backup_database_enhanced env2 options2 s2) = Inr (error_result e2) \<and>
         fst (restore_database env3 s3) = Inr (error_result e3) \<and>
         fst (repair_database env4 s4) = Inr (error_result e4) \<and>
         \<not> isl (fst (backup_database any_env w)) \<and>
         \<not> isl (fst (backup_database_enhanced any_env any_options w)) \<and>
         \<not> isl (fst (restore_database any_env w)) \<and>
         \<not> isl (fst (repair_database any_env w)) \<and>
         \<not> isl (fst (setup_auto_backup schedule creds w)) \<and>
         fst (backup_database_enhanced env' options' s') =
           Inr (JObj [(''success'', JBool True),
                      (''path'', chosen_backup_path env' customPath'),
                      (''driveFileId'', JNull)]) \<and>
         (LogError ''Error setting up Google Drive:'' e'
            \<in> set (console (snd (backup_database_enhanced env' options' s'))) \<or>
          LogError ''Google Drive upload failed:'' e'
            \<in> set (console (snd (backup_database_enhanced env' options' s'))))"
proof -
  note local =
    backup_database_fails[OF assms(1)]
    backup_database_enhanced_fails[OF assms(2)]
    restore_database_fails[OF assms(3)]
    repair_database_backend_fails[OF assms(4), of s4]
  note remote = remote_failure_downgraded[OF assms(5-13)]
  from local remote show ?thesis
    using backup_database_returns backup_database_enhanced_returns restore_database_returns
      repair_database_returns setup_auto_backup_returns
    by blast
qed

theorem failures_stay_inside_the_facade_witness:
  "backup_failure env_mkdir_fails init_world = Some (Error ''EACCES: permission denied'') \<and>
   enhanced_failure env_mkdir_fails JUndefined init_world
     = Some (Error ''EACCES: permission denied'') \<and>
   restore_failure env_backend_fails init_world = Some (Error ''disk full'') \<and>
   repair_error env_backend_fails = Some (Error ''disk full'') \<and>
   backup_failure env_backend_fails init_world = Some (Error ''disk full'') \<and>
   enhanced_failure env_ok JNull init_world
     = Some (Error ''Cannot read properties of null (reading customPath)'') \<and>
   restore_failure env_dialog_fails init_world = Some (Error ''dialog failed'') \<and>
   get_prop sample_options ''customPath'' = Inr JUndefined \<and>
   get_prop sample_options ''uploadToDrive'' = Inr (JBool True) \<and> truthy (JBool True) \<and>
   get_prop sample_options ''driveCredentials'' = Inr sample_credentials \<and>
   truthy sample_credentials \<and>
   (truthy JUndefined \<or> backup_dir_available env_upload_fails init_world) \<and>
   is_string (chosen_backup_path env_upload_fails JUndefined) \<and>
   backup_error env_upload_fails = None \<and>
   remote_error env_upload_fails = Some (Error ''network unreachable'') \<and>
   fst (backup_database env_mkdir_fails init_world)
     = Inr (JObj [(''error'', JStr ''EACCES: permission denied'')]) \<and>
   fst (backup_database_enhanced env_mkdir_fails JUndefined init_world)
     = Inr (JObj [(''error'', JStr ''EACCES: permission denied'')]) \<and>
   fst (restore_database env_backend_fails init_world)
     = Inr (JObj [(''error'', JStr ''disk full'')]) \<and>
   fst (repair_database env_backend_fails init_world)
     = Inr (JObj [(''error'', JStr ''disk full'')]) \<and>
   fst (backup_database env_backend_fails init_world)
     = Inr (JObj [(''error'', JStr ''disk full'')]) \<and>
   fst (backup_database_enhanced env_ok JNull init_world)
     = Inr (JObj [(''error'', JStr ''Cannot read properties of null (reading customPath)'')]) \<and>
   fst (restore_database env_dialog_fails init_world)
     = Inr (JObj [(''error'', JStr ''dialog failed'')]) \<and>
   fst (backup_database_enhanced env_upload_fails sample_options init_world) =
     Inr (JObj [(''success'', JBool True),
                (''path'', JStr ''/home/gym/.config/gym/backups/gym-backup-2024-01-15T10-30-45.db''),
                (''driveFileId'', JNull)])"
proof -
  have a1: "backup_failure env_mkdir_fails init_world = Some (Error ''EACCES: permission denied'')"
    and a2: "enhanced_failure env_mkdir_fails JUndefined init_world
               = Some (Error ''EACCES: permission denied'')"
    by (simp_all add: backup_failure_def enhanced_failure_def mkdir_failure_def
        env_mkdir_fails_def env_ok_def init_world_def)
  have a3: "restore_failure env_backend_fails init_world = Some (Error ''disk full'')"
    and a4: "repair_error env_backend_fails = Some (Error ''disk full'')"
    and c1: "backup_failure env_backend_fails init_world = Some (Error ''disk full'')"
    by (simp_all add: restore_failure_def backup_failure_def mkdir_failure_def
        env_backend_fails_def env_ok_def init_world_def)
  have c2: "enhanced_failure env_ok JNull init_world
              = Some (Error ''Cannot read properties of null (reading customPath)'')"
    by (simp add: enhanced_failure_def)
  have c3: "restore_failure env_dialog_fails init_world = Some (Error ''dialog failed'')"
    by (simp add: restore_failure_def mkdir_failure_def env_dialog_fails_def env_ok_def
        init_world_def)
  have b1: "get_prop sample_options ''customPath'' = Inr JUndefined"
    and b2: "get_prop sample_options ''uploadToDrive'' = Inr (JBool True)"
    and b4: "get_prop sample_options ''driveCredentials'' = Inr sample_credentials"
    by (simp_all add: sample_options_def)
  have b3: "truthy (JBool True)" and b5: "truthy sample_credentials"
    by (simp_all add: sample_credentials_def)
  have p: "chosen_backup_path env_upload_fails JUndefined =
             JStr ''/home/gym/.config/gym/backups/gym-backup-2024-01-15T10-30-45.db''"
    by (simp add: chosen_backup_path_def sample_paths)
  have b6: "truthy JUndefined \<or> backup_dir_available env_upload_fails init_world"
    and b8: "backup_error env_upload_fails = None"
    and b9: "remote_error env_upload_fails = Some (Error ''network unreachable'')"
    by (simp_all add: env_upload_fails_def env_ok_def backup_dir_available_def remote_error_def)
  have b7: "is_string (chosen_backup_path env_upload_fails JUndefined)"
    by (simp add: p)
  have er: "error_result (Error m) = JObj [(''error'', JStr m)]" for m
    by (simp add: error_result_def)
  note r = failures_stay_inside_the_facade[OF a1 a2 a3 a4 b1 b2 b3 b4 b5 b6 b7 b8 b9,
      of init_world, unfolded p er]
  note q = failures_stay_inside_the_facade[OF c1 c2 c3 a4 b1 b2 b3 b4 b5 b6 b7 b8 b9,
      of init_world, unfolded p er]
  from r have r1: "fst (backup_database env_mkdir_fails init_world)
                     = Inr (JObj [(''error'', JStr ''EACCES: permission denied'')])"
    and r2: "fst (backup_database_enhanced env_mkdir_fails JUndefined init_world)
               = Inr (JObj [(''error'', JStr ''EACCES: permission denied'')])"
    and r3: "fst (restore_database env_backend_fails init_world)
               = Inr (JObj [(''error'', JStr ''disk full'')])"
    and r4: "fst (repair_database env_backend_fails init_world)
               = Inr (JObj [(''error'', JStr ''disk full'')])"
    and r5: "fst (backup_database_enhanced env_upload_fails sample_options init_world) =
     Inr (JObj [(''success'', JBool True),
                (''path'', JStr ''/home/gym/.config/gym/backups/gym-backup-2024-01-15T10-30-45.db''),
                (''driveFileId'', JNull)])"
    by blast+
  from q have q1: "fst (backup_database env_backend_fails init_world)
                     = Inr (JObj [(''error'', JStr ''disk full'')])"
    and q2: "fst (backup_database_enhanced env_ok JNull init_world)
               = Inr (JObj [(''error'', JStr ''Cannot read properties of null (reading customPath)'')])"
    and q3: "fst (restore_database env_dialog_fails init_world)
               = Inr (JObj [(''error'', JStr ''dialog failed'')])"
    by blast+
  from a1 a2 a3 a4 c1 c2 c3 b1 b2 b3 b4 b5 b6 b7 b8 b9 r1 r2 r3 r4 r5 q1 q2 q3
  show ?thesis
    by blast
qed

section \<open>No serialization of the storage backend\<close>

text \<open>
  Claim C9 as stated fails: with a daily schedule active, a restore is requested, the
  user picks a file and the restore begins; the timer ticks before the restore has
  completed and the scheduled backup begins in the middle of it.
\<close>

theorem scheduled_backup_starts_mid_restore:
  "trace (loop_run [Request ReqRestore env_ok, Settle 0 env_ok, Tick env_ok, Settle 1 env_ok,
                    Settle 0 env_ok] (loop_init scheduled_world)) =
     [Begin 0 OpRestore, Begin 1 OpBackup, Done 1 OpBackup, Done 0 OpRestore] \<and>
   \<not> serialized (trace (loop_run [Request ReqRestore env_ok, Settle 0 env_ok, Tick env_ok,
                    Settle 1 env_ok, Settle 0 env_ok] (loop_init scheduled_world)))"
  by code_simp

text \<open>
  Claim C9, amended. The handlers do not serialize the operations of the storage
  backend: the backend call of a backup, restore or repair request and of the
  scheduled callback begins in the turn in which its handler reaches it, whatever
  calls other runs have in flight. Only a run whose awaited promises settle before any
  other turn is taken behaves as the sequential handler, its backend call begun and
  completed before anything else starts.
\<close>

theorem backend_calls_not_serialized:
  assumes "backup_dir_available env1 (base l1)"
    and "map_of (pending l3) r = Some AwaitDialog" and "open_dialog env3 = Inr (False, p # ps)"
    and "backup_dir_available env4 (base l4)"
    and "active_triggers (base l4) = [t]" and "cron_match env4 (pattern (tasks (base l4) ! t))"
  shows "trace (loop_step (Request ReqBackup env1) l1) = trace l1 @ [Begin (next_run l1) OpBackup] \<and>
         trace (loop_step (Request ReqRepair env2) l2) = trace l2 @ [Begin (next_run l2) OpRepair] \<and>
         trace (loop_step (Settle r env3) l3) = trace l3 @ [Begin r OpRestore] \<and>
         trace (loop_step (Tick env4) l4) = trace l4 @ [Begin (next_run l4) OpBackup] \<and>
         base (loop_run [Tick env4, Settle (next_run l4) env4] l4) = snd (cron_tick env4 (base l4)) \<and>
         base (loop_run [Request ReqBackup env, Settle (next_run l) env] l) =
           snd (backup_database env (base l)) \<and>
         base (loop_run [Request ReqRestore env, Settle (next_run l) env, Settle (next_run l) env] l) =
           snd (restore_database env (base l)) \<and>
         base (loop_run [Request ReqRepair env, Settle (next_run l) env] l) =
           snd (repair_database env (base l))"
proof -
  have a: "trace (loop_step (Request ReqBackup env1) l1) = trace l1 @ [Begin (next_run l1) OpBackup]"
    using trace_backup_begin[OF assms(1)] by simp
  have b: "trace (loop_step (Request ReqRepair env2) l2) = trace l2 @ [Begin (next_run l2) OpRepair]"
    using trace_repair_begin by simp
  note c = trace_dialog_settled[OF assms(2,3)]
  have d: "trace (loop_step (Tick env4) l4) = trace l4 @ [Begin (next_run l4) OpBackup]"
    unfolding loop_tick_single[OF assms(5,6)] by (rule trace_auto_begin[OF assms(4)])
  note e = alone_tick[OF assms(5,6)]
  from a b c d e alone_backup alone_restore alone_repair show ?thesis
    by blast
qed

theorem backend_calls_not_serialized_witness:
  "backup_dir_available env_ok (base restore_in_flight) \<and>
   map_of (pending second_restore_waiting) 1 = Some AwaitDialog \<and>
   open_dialog env_ok = Inr (False, [''/home/gym/old.db'']) \<and>
   active_triggers (base restore_in_flight) = [0] \<and>
   cron_match env_ok (pattern (tasks (base restore_in_flight) ! 0)) \<and>
   trace restore_in_flight = [Begin 0 OpRestore] \<and>
   trace (loop_step (Request ReqBackup env_ok) restore_in_flight) =
     [Begin 0 OpRestore, Begin 1 OpBackup] \<and>
   trace (loop_step (Request ReqRepair env_ok) restore_in_flight) =
     [Begin 0 OpRestore, Begin 1 OpRepair] \<and>
   trace (loop_step (Settle 1 env_ok) second_restore_waiting) =
     [Begin 0 OpRestore, Begin 1 OpRestore] \<and>
   trace (loop_step (Tick env_ok) restore_in_flight) = [Begin 0 OpRestore, Begin 1 OpBackup]"
proof -
  have h1: "backup_dir_available env_ok (base restore_in_flight)"
    by (simp add: backup_dir_available_def env_ok_def)
  have h3: "open_dialog env_ok = Inr (False, [''/home/gym/old.db''])"
    by (simp add: env_ok_def)
  have h5: "active_triggers (base restore_in_flight) = [0]"
    using scheduled_world_active
    by (simp add: active_triggers_def restore_in_flight_eval)
  have h6: "cron_match env_ok (pattern (tasks (base restore_in_flight) ! 0))"
    by (simp add: env_ok_def)
  note r = backend_calls_not_serialized[OF h1 second_restore_waiting_eval(1) h3 h1 h5 h6,
      of env_ok restore_in_flight,
      unfolded restore_in_flight_eval second_restore_waiting_eval append.simps]
  from r have r1: "trace (loop_step (Request ReqBackup env_ok) restore_in_flight) =
     [Begin 0 OpRestore, Begin 1 OpBackup]"
    by blast
  from r have r2: "trace (loop_step (Request ReqRepair env_ok) restore_in_flight) =
     [Begin 0 OpRestore, Begin 1 OpRepair]"
    by blast
  from r have r3: "trace (loop_step (Settle 1 env_ok) second_restore_waiting) =
     [Begin 0 OpRestore, Begin 1 OpRestore]"
    by blast
  from r have r4: "trace (loop_step (Tick env_ok) restore_in_flight) =
     [Begin 0 OpRestore, Begin 1 OpBackup]"
    by blast
  from h1 second_restore_waiting_eval(1) h3 h5 h6 restore_in_flight_eval(2) r1 r2 r3 r4
  show ?thesis
    by blast
qed

section \<open>Login\<close>

text \<open>
  Claim C10. The user object of a successful login has no \<^verbatim>\<open>password_hash\<close>
  property: it is the first row of the query with that property deleted.
\<close>

theorem login_hides_password_hash:
  assumes "fst (login a username password s) = Inr result"
    and "get_prop result ''success'' = Inr (JBool True)"
    and "get_prop result ''user'' = Inr user"
  shows "''password_hash'' \<notin> set (own_keys user) \<and>
         get_prop user ''password_hash'' = Inr JUndefined \<and>
         (\<exists>row rest. query_users a username = Inr (row # rest) \<and>
            user = JObj (delete_prop ''password_hash'' row))"
proof -
  from login_success_shape[OF assms(1,2)] obtain row rest
    where q: "query_users a username = Inr (row # rest)"
      and r: "result = JObj [(''success'', JBool True),
                             (''user'', JObj (delete_prop ''password_hash'' row))]"
    by blast
  from r assms(3) have u: "user = JObj (delete_prop ''password_hash'' row)"
    by simp
  show ?thesis
    using q by (simp add: u keys_delete_prop map_of_delete_prop)
qed

theorem login_hides_password_hash_witness:
  "fst (login sample_auth (JStr ''admin'') (JStr ''secret'') init_world) =
     Inr (JObj [(''success'', JBool True),
                (''user'', JObj [(''id'', JNum 1), (''username'', JStr ''admin''),
                                 (''gym_id'', JNum 1), (''gym_name'', JStr ''Main Gym'')])]) \<and>
   get_prop (JObj [(''success'', JBool True),
                (''user'', JObj [(''id'', JNum 1), (''username'', JStr ''admin''),
                                 (''gym_id'', JNum 1), (''gym_name'', JStr ''Main Gym'')])])
      ''success'' = Inr (JBool True) \<and>
   get_prop (JObj [(''success'', JBool True),
                (''user'', JObj [(''id'', JNum 1), (''username'', JStr ''admin''),
                                 (''gym_id'', JNum 1), (''gym_name'', JStr ''Main Gym'')])])
      ''user'' = Inr (JObj [(''id'', JNum 1), (''username'', JStr ''admin''),
                                 (''gym_id'', JNum 1), (''gym_name'', JStr ''Main Gym'')]) \<and>
   ''password_hash'' \<notin> set (own_keys (JObj [(''id'', JNum 1), (''username'', JStr ''admin''),
                                 (''gym_id'', JNum 1), (''gym_name'', JStr ''Main Gym'')]))"
proof -
  let ?user = "JObj [(''id'', JNum 1), (''username'', JStr ''admin''),
                     (''gym_id'', JNum 1), (''gym_name'', JStr ''Main Gym'')]"
  let ?result = "JObj [(''success'', JBool True), (''user'', ?user)]"
  have h1: "fst (login sample_auth (JStr ''admin'') (JStr ''secret'') init_world) = Inr ?result"
    by (simp add: login_def login_body_def sample_auth_def delete_prop_def Let_def)
  have h2: "get_prop ?result ''success'' = Inr (JBool True)"
    and h3: "get_prop ?result ''user'' = Inr ?user"
    by simp_all
  from login_hides_password_hash[OF h1 h2 h3] h1 h2 h3 show ?thesis
    by blast
qed

end
